theory Spec2Isabelle
  imports Main "HOL-Library.Word"
begin

unbundle bit_operations_syntax

section \<open>Screen geometry and the frame store (OLED.h, OLED.c)\<close>

text \<open>
  The display is 128 columns by 64 rows, stored as 8 pages of 128 bytes; bit \<open>b\<close> of
  byte \<open>[page][col]\<close> is pixel \<open>(col, page * 8 + b)\<close>.  A frame buffer
  \<open>uint8_t [8][128]\<close> is a function from page and column to a byte.  C parameters of
  type \<open>int16_t\<close> and \<open>uint8_t\<close> are words; expressions over them are evaluated in
  \<open>int\<close>, as C's integer promotion does, and cut back to the width of the variable
  they are stored in.
\<close>

type_synonym gram = "nat \<Rightarrow> nat \<Rightarrow> 8 word"

definition OLED_WIDTH :: int where
  "OLED_WIDTH = 128"

definition OLED_HEIGHT :: int where
  "OLED_HEIGHT = 64"

definition OLED_PAGE_COUNT :: nat where
  "OLED_PAGE_COUNT = 8"

definition OLED_COLUMN_COUNT :: nat where
  "OLED_COLUMN_COUNT = 128"

definition OLED_COLOR_BLACK :: "8 word" where
  "OLED_COLOR_BLACK = 0x00"

definition OLED_COLOR_WHITE :: "8 word" where
  "OLED_COLOR_WHITE = 0x01"

text \<open>\<open>OLED_CHECK_COORDINATES(x, y)\<close>: true when the macro returns from the caller.\<close>

definition OLED_CHECK_COORDINATES :: "int \<Rightarrow> int \<Rightarrow> bool" where
  "OLED_CHECK_COORDINATES x y \<longleftrightarrow> x < 0 \<or> x \<ge> OLED_WIDTH \<or> y < 0 \<or> y \<ge> OLED_HEIGHT"

text \<open>\<open>OLED_CHECK_RECTANGLE(x, y, w, h)\<close>: true when the macro returns from the caller.\<close>

definition OLED_CHECK_RECTANGLE :: "int \<Rightarrow> int \<Rightarrow> int \<Rightarrow> int \<Rightarrow> bool" where
  "OLED_CHECK_RECTANGLE x y w h \<longleftrightarrow> w = 0 \<or> h = 0 \<or> x \<ge> OLED_WIDTH \<or> y \<ge> OLED_HEIGHT"

text \<open>
  \<open>OLED_DrawPoint\<close> writes into the buffer \<open>OLED_GRAM\<close> points to (the active buffer),
  here the argument \<open>g\<close>.  Past the coordinate check \<open>Y\<close> is not negative, so C's
  \<open>/\<close> and \<open>%\<close> agree with \<open>div\<close> and \<open>mod\<close>.
\<close>

definition OLED_DrawPoint :: "16 word \<Rightarrow> 16 word \<Rightarrow> 8 word \<Rightarrow> gram \<Rightarrow> gram" where
  "OLED_DrawPoint X Y Color g =
     (if OLED_CHECK_COORDINATES (sint X) (sint Y) then g
      else
        let page = nat (sint Y div 8); col = nat (sint X); b = nat (sint Y mod 8)
        in if Color = OLED_COLOR_WHITE
           then g(page := (g page)(col := g page col OR push_bit b 0x01))
           else g(page := (g page)(col := g page col AND NOT (push_bit b 0x01))))"


section \<open>Rasterizer (OLED.c)\<close>

text \<open>
  Every shape primitive changes the buffer only through \<open>OLED_DrawPoint(.., .., 1)\<close>.
  Each primitive is modelled by the sequence of points it passes to \<open>OLED_DrawPoint\<close>,
  in call order, and by the buffer that results from making those calls.
\<close>

fun plot :: "(16 word \<times> 16 word) list \<Rightarrow> gram \<Rightarrow> gram" where
  "plot [] g = g"
| "plot ((x, y) # ps) g = plot ps (OLED_DrawPoint x y 0x01 g)"

definition to_int16 :: "int \<times> int \<Rightarrow> 16 word \<times> 16 word" where
  "to_int16 p = (word_of_int (fst p), word_of_int (snd p))"

text \<open>The values of \<open>j\<close> in \<open>for (j = a; j < b; j ++)\<close> with \<open>int16_t j\<close>.\<close>

function range16 :: "16 word \<Rightarrow> 16 word \<Rightarrow> 16 word list" where
  "range16 j b = (if j <s b then j # range16 (j + 1) b else [])"
  by pat_completeness auto
termination
proof (relation "measure (\<lambda>(j, b). nat (sint b - sint j))")
  show "wf (measure (\<lambda>(j, b). nat (sint b - sint j)))"
    by simp
next
  fix j b :: "16 word"
  assume "j <s b"
  then have lt: "sint j < sint b"
    by (simp add: word_sless_alt)
  have "sint b < 32768"
    using sint_lt [of b] by simp
  moreover have "- 32768 \<le> sint j"
    using sint_ge [of j] by simp
  ultimately have "sint (j + 1) = sint j + 1"
    using lt by (simp add: sint_word_ariths signed_take_bit_int_eq_self)
  with lt show "((j + 1, b), (j, b)) \<in> measure (\<lambda>(j, b). nat (sint b - sint j))"
    by simp
qed

subsection \<open>\<open>OLED_DrawCircle\<close>\<close>

text \<open>The eight symmetric points drawn for the octant point \<open>(x, y)\<close>.\<close>

definition circle_octants :: "16 word \<Rightarrow> 16 word \<Rightarrow> 16 word \<Rightarrow> 16 word \<Rightarrow> (16 word \<times> 16 word) list" where
  "circle_octants X Y x y =
     [(X + x, Y + y), (X + y, Y + x), (X - x, Y - y), (X - y, Y - x),
      (X + x, Y - y), (X + y, Y - x), (X - x, Y + y), (X - y, Y + x)]"

text \<open>The two fill loops of one step: the middle columns, then the side columns.\<close>

definition circle_fill :: "16 word \<Rightarrow> 16 word \<Rightarrow> 16 word \<Rightarrow> 16 word \<Rightarrow> (16 word \<times> 16 word) list" where
  "circle_fill X Y x y =
     concat (map (\<lambda>j. [(X + x, Y + j), (X - x, Y + j)]) (range16 (- y) y)) @
     concat (map (\<lambda>j. [(X - y, Y + j), (X + y, Y + j)]) (range16 (- x) x))"

text \<open>
  \<open>while (x < y)\<close> with \<open>int16_t x, y, d\<close>: the decision variable \<open>d\<close> wraps at 16
  bits; \<open>x\<close> and \<open>y\<close> are stepped as the code steps them.
\<close>

function circle_loop ::
  "16 word \<Rightarrow> 16 word \<Rightarrow> bool \<Rightarrow> 16 word \<Rightarrow> 16 word \<Rightarrow> 16 word \<Rightarrow> (16 word \<times> 16 word) list" where
  "circle_loop X Y filled x y d =
     (if x <s y then
        circle_octants X Y (x + 1) (if d <s 0 then y else y - 1) @
        (if filled then circle_fill X Y (x + 1) (if d <s 0 then y else y - 1) else []) @
        circle_loop X Y filled (x + 1) (if d <s 0 then y else y - 1)
          (if d <s 0 then d + (2 * (x + 1) + 1) else d + (2 * ((x + 1) - (y - 1)) + 1))
      else [])"
  by pat_completeness auto
termination
proof (relation "measure (\<lambda>(X, Y, filled, x, y, d). nat (sint y - sint x))")
  show "wf (measure (\<lambda>(X, Y, filled, x, y, d). nat (sint y - sint x)))"
    by simp
next
  fix X Y x y d :: "16 word" and filled :: bool
  assume "x <s y"
  then have lt: "sint x < sint y"
    by (simp add: word_sless_alt)
  have lo: "- 32768 \<le> sint x" and hi: "sint y < 32768"
    using sint_ge [of x] sint_lt [of y] by simp_all
  have sx: "sint (x + 1) = sint x + 1"
    using lt lo hi by (simp add: sint_word_ariths signed_take_bit_int_eq_self)
  have sy: "sint (y - 1) = sint y - 1"
    using lt lo hi by (simp add: sint_word_ariths signed_take_bit_int_eq_self)
  show "((X, Y, filled, x + 1, if d <s 0 then y else y - 1,
          if d <s 0 then d + (2 * (x + 1) + 1) else d + (2 * (x + 1 - (y - 1)) + 1)),
         X, Y, filled, x, y, d)
        \<in> measure (\<lambda>(X, Y, filled, x, y, d). nat (sint y - sint x))"
    using lt sx sy by simp
qed

definition OLED_DrawCircle_points ::
  "16 word \<Rightarrow> 16 word \<Rightarrow> 16 word \<Rightarrow> 8 word \<Rightarrow> (16 word \<times> 16 word) list" where
  "OLED_DrawCircle_points X Y Radius IsFilled =
     [(X + 0, Y + Radius), (X - 0, Y - Radius), (X + Radius, Y + 0), (X - Radius, Y - 0)] @
     (if IsFilled \<noteq> 0 then map (\<lambda>j. (X, Y + j)) (range16 (- Radius) Radius) else []) @
     circle_loop X Y (IsFilled \<noteq> 0) 0 Radius (1 - Radius)"

definition OLED_DrawCircle :: "16 word \<Rightarrow> 16 word \<Rightarrow> 16 word \<Rightarrow> 8 word \<Rightarrow> gram \<Rightarrow> gram" where
  "OLED_DrawCircle X Y Radius IsFilled g = plot (OLED_DrawCircle_points X Y Radius IsFilled) g"

text \<open>The pixels of the screen that are lit in a buffer.\<close>

definition lit :: "gram \<Rightarrow> (int \<times> int) set" where
  "lit g = {(x, y). 0 \<le> x \<and> x < OLED_WIDTH \<and> 0 \<le> y \<and> y < OLED_HEIGHT \<and>
                    bit (g (nat (y div 8)) (nat x)) (nat (y mod 8))}"

subsection \<open>\<open>OLED_DrawLine\<close>\<close>

text \<open>
  Past the two coordinate checks both endpoints are on the screen, so every local of
  \<open>OLED_DrawLine\<close> stays far inside the range of \<open>int16_t\<close>; the locals are integers.
  \<open>line_point\<close> undoes the octant normalisation for one plotted point.
\<close>

definition line_point :: "bool \<Rightarrow> bool \<Rightarrow> int \<Rightarrow> int \<Rightarrow> int \<times> int" where
  "line_point yflag xyflag x y =
     (if yflag \<and> xyflag then (y, - x)
      else if yflag then (x, - y)
      else if xyflag then (y, x)
      else (x, y))"

function line_loop ::
  "bool \<Rightarrow> bool \<Rightarrow> int \<Rightarrow> int \<Rightarrow> int \<Rightarrow> int \<Rightarrow> int \<Rightarrow> int \<Rightarrow> (int \<times> int) list" where
  "line_loop yflag xyflag incrE incrNE x1 x y d =
     (if x < x1 then
        line_point yflag xyflag (x + 1) (if d < 0 then y else y + 1) #
        line_loop yflag xyflag incrE incrNE x1 (x + 1) (if d < 0 then y else y + 1)
          (if d < 0 then d + incrE else d + incrNE)
      else [])"
  by pat_completeness auto
termination
  by (relation "measure (\<lambda>(yflag, xyflag, incrE, incrNE, x1, x, y, d). nat (x1 - x))") auto

definition line_general :: "int \<Rightarrow> int \<Rightarrow> int \<Rightarrow> int \<Rightarrow> (int \<times> int) list" where
  "line_general xa ya xb yb =
     (let (x0, y0, x1, y1) = (if xa > xb then (xb, yb, xa, ya) else (xa, ya, xb, yb));
          yflag = (y0 > y1);
          (y0, y1) = (if yflag then (- y0, - y1) else (y0, y1));
          xyflag = (y1 - y0 > x1 - x0);
          (x0, y0, x1, y1) = (if xyflag then (y0, x0, y1, x1) else (x0, y0, x1, y1));
          dx = x1 - x0;
          dy = y1 - y0;
          incrE = 2 * dy;
          incrNE = 2 * (dy - dx);
          d = 2 * dy - dx
      in line_point yflag xyflag x0 y0 # line_loop yflag xyflag incrE incrNE x1 x0 y0 d)"

definition OLED_DrawLine_points :: "16 word \<Rightarrow> 16 word \<Rightarrow> 16 word \<Rightarrow> 16 word \<Rightarrow> (int \<times> int) list" where
  "OLED_DrawLine_points X0 Y0 X1 Y1 =
     (if OLED_CHECK_COORDINATES (sint X0) (sint Y0) then []
      else if OLED_CHECK_COORDINATES (sint X1) (sint Y1) then []
      else
        let x0 = sint X0; y0 = sint Y0; x1 = sint X1; y1 = sint Y1
        in if y0 = y1 then
             (let (x0, x1) = (if x0 > x1 then (x1, x0) else (x0, x1))
              in map (\<lambda>x. (x, y0)) [x0..x1])
           else if x0 = x1 then
             (let (y0, y1) = (if y0 > y1 then (y1, y0) else (y0, y1))
              in map (\<lambda>y. (x0, y)) [y0..y1])
           else line_general x0 y0 x1 y1)"

text \<open>The \<open>Color\<close> parameter is never read: every call in the body passes \<open>1\<close>.\<close>

definition OLED_DrawLine :: "16 word \<Rightarrow> 16 word \<Rightarrow> 16 word \<Rightarrow> 16 word \<Rightarrow> 8 word \<Rightarrow> gram \<Rightarrow> gram" where
  "OLED_DrawLine X0 Y0 X1 Y1 Color g = plot (map to_int16 (OLED_DrawLine_points X0 Y0 X1 Y1)) g"

subsection \<open>\<open>OLED_DrawRectangle\<close>\<close>

text \<open>C's \<open>%\<close> on \<open>int\<close>: the remainder has the sign of the dividend.\<close>

definition c_rem :: "int \<Rightarrow> int \<Rightarrow> int" where
  "c_rem a b = sgn a * (\<bar>a\<bar> mod \<bar>b\<bar>)"

text \<open>
  The values of \<open>i\<close> in \<open>for (i = a; i < B; i++)\<close> with \<open>uint8_t i\<close> and the bound
  \<open>B\<close> an \<open>int\<close>.  When \<open>B\<close> is above 255 the counter wraps from 255 to 0 and the
  loop never ends: the result is \<open>None\<close>.
\<close>

function u8_for :: "nat \<Rightarrow> int \<Rightarrow> nat list option" where
  "u8_for i B =
     (if int i < B then (if i \<ge> 255 then None else map_option ((#) i) (u8_for (i + 1) B))
      else Some [])"
  by pat_completeness auto
termination
  by (relation "measure (\<lambda>(i, B). 256 - i)") auto

definition OLED_DrawRectangle_points ::
  "16 word \<Rightarrow> 16 word \<Rightarrow> 16 word \<Rightarrow> 16 word \<Rightarrow> 8 word \<Rightarrow> (int \<times> int) list option" where
  "OLED_DrawRectangle_points X0 Y0 Width Height IsFilled =
     (if OLED_CHECK_RECTANGLE (sint X0) (sint Y0) (sint Width) (sint Height) then Some []
      else
        let W = sint Width; H = sint Height;
            X = (if sint X0 \<ge> 128 then c_rem (sint X0) 128 else sint X0);
            X = (if X < 0 then 128 + c_rem X 128 else X);
            Y = (if sint Y0 \<ge> 64 then c_rem (sint Y0) 64 else sint Y0);
            Y = (if Y < 0 then 64 + c_rem Y 64 else Y)
        in if IsFilled = 0 then
             (case u8_for (nat X) (X + W) of
                None \<Rightarrow> None
              | Some cols \<Rightarrow>
                 (case u8_for (nat Y) (Y + H) of
                    None \<Rightarrow> None
                  | Some rows \<Rightarrow>
                      Some (concat (map (\<lambda>i. [(int i mod 128, Y), (int i mod 128, c_rem (Y + H - 1) 64)]) cols) @
                            concat (map (\<lambda>i. [(X, int i mod 64), (c_rem (X + W - 1) 128, int i mod 64)]) rows))))
           else
             (case u8_for (nat X) (X + W) of
                Some [] \<Rightarrow> Some []
              | Some cols \<Rightarrow>
                 (case u8_for (nat Y) (Y + H) of
                    None \<Rightarrow> None
                  | Some rows \<Rightarrow>
                      Some (concat (map (\<lambda>i. map (\<lambda>j. (int i mod 128, int j mod 64)) rows) cols)))
              | None \<Rightarrow> None))"

definition OLED_DrawRectangle ::
  "16 word \<Rightarrow> 16 word \<Rightarrow> 16 word \<Rightarrow> 16 word \<Rightarrow> 8 word \<Rightarrow> gram \<Rightarrow> gram option" where
  "OLED_DrawRectangle X Y Width Height IsFilled g =
     map_option (\<lambda>ps. plot (map to_int16 ps) g) (OLED_DrawRectangle_points X Y Width Height IsFilled)"

text \<open>
  The loop equations are unconditional, so they are taken out of the simplifier's rule
  set and unfolded by hand.
\<close>

declare range16.simps [simp del]

declare circle_loop.simps [simp del]

declare line_loop.simps [simp del]

declare u8_for.simps [simp del]

text \<open>The bit that a call \<open>OLED_DrawPoint(x, y, 1)\<close> sets, if the point is on the screen.\<close>

definition hits :: "16 word \<times> 16 word \<Rightarrow> nat \<Rightarrow> nat \<Rightarrow> nat \<Rightarrow> bool" where
  "hits q p c n \<longleftrightarrow> \<not> OLED_CHECK_COORDINATES (sint (fst q)) (sint (snd q)) \<and>
     p = nat (sint (snd q) div 8) \<and> c = nat (sint (fst q)) \<and> n = nat (sint (snd q) mod 8)"

subsection \<open>\<open>OLED_Reverse\<close>\<close>

definition OLED_Reverse :: "gram \<Rightarrow> gram" where
  "OLED_Reverse g =
     fold (\<lambda>j g. g(j := fold (\<lambda>i gramPage. gramPage(i := gramPage i XOR 0xFF))
                           [0..<OLED_COLUMN_COUNT] (g j)))
       [0..<OLED_PAGE_COUNT] g"

section \<open>Buffers, transfer session and transport (OLED.c)\<close>

text \<open>
  The two static frame buffers, the pointers \<open>OLED_GRAM\<close> (active buffer) and
  \<open>OLED_DISPLAY_GRAM\<close> (display buffer), and the session variables of the DMA
  transfer.  A pointer is the name of the array it points to.  The bus transport is
  outside the driver: an operation records, in \<open>log\<close>, the calls it makes to it
  (\<open>OLED_Set_Pos\<close>, the start of a DMA block send with its source and length) and, for
  counting, each assignment to \<open>OLED_DISPLAY_GRAM\<close>.  What the hardware answers (a
  bounded wait succeeds or runs out, a completion interrupt arrives) is an argument of
  the operation; a completion interrupt runs \<open>OLED_DMA_IRQHandler\<close> on the state.
  The timing variables of \<open>OLED_GetDMATransferTime\<close> are left out: nothing reads
  them.
\<close>

datatype BufferSelect = BUFFER_A | BUFFER_B

datatype gram_ptr = PTR_GRAM1 | PTR_GRAM2

datatype event =
    Set_Pos "8 word" "8 word"
  | DMA_Send gram_ptr int nat
  | Display_Assign gram_ptr

record oled =
  OLED_GRAM1 :: gram
  OLED_GRAM2 :: gram
  OLED_GRAM :: gram_ptr
  OLED_DISPLAY_GRAM :: gram_ptr
  OLED_DMA_TransferBusy :: "8 word"
  OLED_DMA_TransferComplete :: "8 word"
  active_buffer :: BufferSelect
  display_buffer :: BufferSelect
  current_dma_page :: "8 word"
  current_dma_buffer :: "8 word"
  log :: "event list"

text \<open>The static initialisers of OLED.c.\<close>

definition power_on :: oled where
  "power_on =
     \<lparr>OLED_GRAM1 = (\<lambda>page col. 0), OLED_GRAM2 = (\<lambda>page col. 0),
      OLED_GRAM = PTR_GRAM1, OLED_DISPLAY_GRAM = PTR_GRAM1,
      OLED_DMA_TransferBusy = 0, OLED_DMA_TransferComplete = 0,
      active_buffer = BUFFER_A, display_buffer = BUFFER_A,
      current_dma_page = 0, current_dma_buffer = 0, log = []\<rparr>"

definition deref :: "oled \<Rightarrow> gram_ptr \<Rightarrow> gram" where
  "deref s p = (case p of PTR_GRAM1 \<Rightarrow> OLED_GRAM1 s | PTR_GRAM2 \<Rightarrow> OLED_GRAM2 s)"

text \<open>The value of the enumeration constant when it is stored in a \<open>uint8_t\<close>.\<close>

definition enum_value :: "BufferSelect \<Rightarrow> 8 word" where
  "enum_value b = (case b of BUFFER_A \<Rightarrow> 0 | BUFFER_B \<Rightarrow> 1)"

definition emit :: "event \<Rightarrow> oled \<Rightarrow> oled" where
  "emit e s = s\<lparr>log := log s @ [e]\<rparr>"

text \<open>
  A byte of a frame buffer by its offset from the start of the array; an offset outside
  the 1024 bytes of the array reads memory that is not part of it.
\<close>

definition read_flat :: "gram \<Rightarrow> int \<Rightarrow> 8 word option" where
  "read_flat g off =
     (if 0 \<le> off \<and> off < 1024 then Some (g (nat (off div 128)) (nat (off mod 128))) else None)"

text \<open>The bytes a DMA block send takes from memory.\<close>

definition dma_bytes :: "oled \<Rightarrow> gram_ptr \<Rightarrow> int \<Rightarrow> nat \<Rightarrow> 8 word option list" where
  "dma_bytes s p off n = map (\<lambda>i. read_flat (deref s p) (off + int i)) [0..<n]"

text \<open>
  \<open>OLED_StartDMATransferPage\<close>: \<open>bus_ok\<close> says that the four bounded waits (bus idle,
  start condition, address, control byte) all succeed; otherwise the function returns 0
  before the DMA channel is programmed.
\<close>

definition OLED_StartDMATransferPage :: "bool \<Rightarrow> 8 word \<Rightarrow> 8 word \<Rightarrow> oled \<Rightarrow> 8 word \<times> oled" where
  "OLED_StartDMATransferPage bus_ok page buffer_select s =
     (let s = emit (Set_Pos 0 page) s
      in if \<not> bus_ok then (0, s)
         else
           let s = emit (DMA_Send (if buffer_select = 0 then PTR_GRAM1 else PTR_GRAM2)
                           (int (unat page) * 128) OLED_COLUMN_COUNT) s;
               s = s\<lparr>OLED_DMA_TransferComplete := 0\<rparr>
           in (1, s))"

text \<open>
  \<open>OLED_DMA_IRQHandler\<close>: \<open>tc\<close> is the transfer-complete interrupt status, \<open>bus_ok\<close>
  the answer of the bus to the page the handler starts next.
\<close>

definition OLED_DMA_IRQHandler :: "bool \<Rightarrow> bool \<Rightarrow> oled \<Rightarrow> oled" where
  "OLED_DMA_IRQHandler tc bus_ok s =
     (if \<not> tc then s
      else
        let s = s\<lparr>OLED_DMA_TransferComplete := 1\<rparr>;
            s = s\<lparr>current_dma_page := current_dma_page s + 1\<rparr>
        in if current_dma_page s < 8
           then snd (OLED_StartDMATransferPage bus_ok (current_dma_page s) (current_dma_buffer s) s)
           else
             let s = s\<lparr>OLED_DMA_TransferBusy := 0\<rparr>;
                 s = s\<lparr>OLED_DISPLAY_GRAM := (if current_dma_buffer s = 0 then PTR_GRAM1 else PTR_GRAM2)\<rparr>
             in emit (Display_Assign (OLED_DISPLAY_GRAM s)) s)"

definition OLED_UpdateAsync :: "bool \<Rightarrow> oled \<Rightarrow> 8 word \<times> oled" where
  "OLED_UpdateAsync bus_ok s =
     (if OLED_DMA_TransferBusy s \<noteq> 0 then (0, s)
      else
        let s = s\<lparr>OLED_DMA_TransferBusy := 1\<rparr>;
            s = s\<lparr>current_dma_buffer := enum_value (active_buffer s)\<rparr>;
            s = s\<lparr>display_buffer := active_buffer s\<rparr>;
            s = s\<lparr>active_buffer := (if active_buffer s = BUFFER_A then BUFFER_B else BUFFER_A)\<rparr>;
            s = s\<lparr>OLED_GRAM := (if active_buffer s = BUFFER_A then PTR_GRAM1 else PTR_GRAM2)\<rparr>;
            s = s\<lparr>OLED_DISPLAY_GRAM := (if display_buffer s = BUFFER_A then PTR_GRAM1 else PTR_GRAM2)\<rparr>;
            s = emit (Display_Assign (OLED_DISPLAY_GRAM s)) s;
            s = s\<lparr>current_dma_page := 0\<rparr>;
            (started, s) = OLED_StartDMATransferPage bus_ok 0 (current_dma_buffer s) s
        in if started = 0 then (0, s\<lparr>OLED_DMA_TransferBusy := 0\<rparr>) else (1, s))"

definition OLED_IsUpdating :: "oled \<Rightarrow> 8 word" where
  "OLED_IsUpdating s = OLED_DMA_TransferBusy s"

text \<open>
  A run of completion interrupts, each with the bus's answer to the page that the handler
  chains.
\<close>

fun completions :: "bool list \<Rightarrow> oled \<Rightarrow> oled" where
  "completions [] s = s"
| "completions (bus_ok # rest) s = completions rest (OLED_DMA_IRQHandler True bus_ok s)"

text \<open>The two transport calls that begin page \<open>p\<close> of a full frame read from \<open>b\<close>.\<close>

definition page_begin :: "gram_ptr \<Rightarrow> nat \<Rightarrow> event list" where
  "page_begin b p = [Set_Pos 0 (of_nat p), DMA_Send b (int p * 128) 128]"

definition is_Display_Assign :: "event \<Rightarrow> bool" where
  "is_Display_Assign e = (case e of Display_Assign p \<Rightarrow> True | _ \<Rightarrow> False)"

definition is_Set_Pos :: "event \<Rightarrow> bool" where
  "is_Set_Pos e = (case e of Set_Pos x y \<Rightarrow> True | _ \<Rightarrow> False)"

subsection \<open>\<open>OLED_UpdateArea\<close> (hardware I2C with DMA, double buffer)\<close>

text \<open>C's \<open>/\<close> on \<open>int\<close> truncates towards zero.\<close>

definition c_div :: "int \<Rightarrow> int \<Rightarrow> int" where
  "c_div a b = sgn a * sgn b * (\<bar>a\<bar> div \<bar>b\<bar>)"

text \<open>
  What the hardware answers while one page of the area is sent.  Either one of the four
  bounded waits before the DMA channel is started runs out; or the channel is started,
  and then the function polls the volatile flag \<open>OLED_DMA_TransferComplete\<close>, which
  only \<open>OLED_DMA_IRQHandler\<close> raises: the answer lists the completion interrupts that
  arrive during that wait (each with the bus's answer to the page the handler may chain)
  and says whether the final wait for the last byte succeeds.
\<close>

datatype area_hw = Setup_timeout | DMA_started "bool list" bool

text \<open>
  \<open>while (!OLED_DMA_TransferComplete && --timeout);\<close> with the handler running at each
  completion interrupt; the wait has run out when no interrupt is left and the flag is
  still clear.
\<close>

fun irq_wait :: "bool list \<Rightarrow> oled \<Rightarrow> bool \<times> oled" where
  "irq_wait [] s = (False, s)"
| "irq_wait (bus_ok # rest) s =
     (let s = OLED_DMA_IRQHandler True bus_ok s
      in if OLED_DMA_TransferComplete s \<noteq> 0 then (True, s) else irq_wait rest s)"

text \<open>
  \<open>for (page = start_page; page <= end_page; page++)\<close> with \<open>uint8_t page\<close>; each
  iteration takes the next answer of the hardware, and the result is \<open>None\<close> when the
  answers run out before the loop ends (with \<open>end_page = 255\<close> the loop condition
  never fails).
\<close>

fun area_loop :: "area_hw list \<Rightarrow> 16 word \<Rightarrow> 16 word \<Rightarrow> 8 word \<Rightarrow> 8 word \<Rightarrow> oled \<Rightarrow> oled option" where
  "area_loop [] x1 data_len end_page page s =
     (if page \<le> end_page then None else Some (s\<lparr>OLED_DMA_TransferBusy := 0\<rparr>))"
| "area_loop (h # hw) x1 data_len end_page page s =
     (if page \<le> end_page then
        (let s = emit (Set_Pos (ucast x1) page) s
         in case h of
              Setup_timeout \<Rightarrow> Some (s\<lparr>OLED_DMA_TransferBusy := 0\<rparr>)
            | DMA_started irqs last_byte_ok \<Rightarrow>
                (let s = s\<lparr>OLED_DMA_TransferComplete := 0\<rparr>;
                     s = emit (DMA_Send (OLED_DISPLAY_GRAM s) (int (unat page) * 128 + sint x1) (unat data_len)) s;
                     waited = irq_wait irqs s
                 in if \<not> fst waited then Some ((snd waited)\<lparr>OLED_DMA_TransferBusy := 0\<rparr>)
                    else if \<not> last_byte_ok then Some ((snd waited)\<lparr>OLED_DMA_TransferBusy := 0\<rparr>)
                    else area_loop hw x1 data_len end_page (page + 1) (snd waited)))
      else Some (s\<lparr>OLED_DMA_TransferBusy := 0\<rparr>))"

text \<open>
  \<open>while (OLED_DMA_TransferBusy);\<close>: the flag is volatile and only
  \<open>OLED_DMA_IRQHandler\<close> clears it, after the last page of a session.  \<open>irqs\<close> are
  the completion interrupts that arrive while the function spins; the result is
  \<open>None\<close> when the flag is still set after the last of them (the spin never ends).
\<close>

fun busy_wait :: "bool list \<Rightarrow> oled \<Rightarrow> oled option" where
  "busy_wait [] s = (if OLED_DMA_TransferBusy s \<noteq> 0 then None else Some s)"
| "busy_wait (bus_ok # rest) s =
     (if OLED_DMA_TransferBusy s \<noteq> 0 then busy_wait rest (OLED_DMA_IRQHandler True bus_ok s)
      else Some s)"

text \<open>
  \<open>OLED_UpdateArea\<close>: \<open>spin\<close> are the completion interrupts during the wait for
  a running session, \<open>hw\<close> the answers of the hardware page by page.
\<close>

definition OLED_UpdateArea ::
  "bool list \<Rightarrow> area_hw list \<Rightarrow> 16 word \<Rightarrow> 16 word \<Rightarrow> 16 word \<Rightarrow> 16 word \<Rightarrow> oled \<Rightarrow> oled option" where
  "OLED_UpdateArea spin hw x1 y1 x2 y2 s =
     (if sint x1 \<ge> int OLED_COLUMN_COUNT \<or> sint y1 \<ge> OLED_HEIGHT \<or> sint x2 < 0 \<or> sint y2 < 0 \<or>
         sint x1 > sint x2 \<or> sint y1 > sint y2
      then Some s
      else
        let start_page = (word_of_int (c_div (sint y1) 8) :: 8 word);
            end_page = (word_of_int (c_div (sint y2) 8) :: 8 word);
            data_len = (word_of_int (sint x2 - sint x1 + 1) :: 16 word)
        in case busy_wait spin s of
             None \<Rightarrow> None
           | Some s \<Rightarrow> area_loop hw x1 data_len end_page start_page (s\<lparr>OLED_DMA_TransferBusy := 1\<rparr>))"

text \<open>The two transport calls of one page of an area update.\<close>

definition area_page :: "oled \<Rightarrow> 16 word \<Rightarrow> nat \<Rightarrow> nat \<Rightarrow> event list" where
  "area_page s x1 n p =
     [Set_Pos (ucast x1) (of_nat p), DMA_Send (OLED_DISPLAY_GRAM s) (int p * 128 + sint x1) n]"

text \<open>
  The array the session variable \<open>current_dma_buffer\<close> selects; the handler assigns it
  to \<open>OLED_DISPLAY_GRAM\<close> whenever it finds the page counter at 8 or more.
\<close>

definition session_ptr :: "oled \<Rightarrow> gram_ptr" where
  "session_ptr s = (if current_dma_buffer s = 0 then PTR_GRAM1 else PTR_GRAM2)"

text \<open>
  The events of one page of an area update that runs with the page counter at 7 or more:
  the two transport calls, then the handler's assignment to \<open>OLED_DISPLAY_GRAM\<close>.
\<close>

definition area_page_events :: "oled \<Rightarrow> 16 word \<Rightarrow> nat \<Rightarrow> nat \<Rightarrow> event list" where
  "area_page_events s x1 n p = area_page s x1 n p @ [Display_Assign (OLED_DISPLAY_GRAM s)]"

subsection \<open>A full-frame session\<close>

text \<open>The array a buffer selector stands for.\<close>

definition ptr_of :: "BufferSelect \<Rightarrow> gram_ptr" where
  "ptr_of b = (case b of BUFFER_A \<Rightarrow> PTR_GRAM1 | BUFFER_B \<Rightarrow> PTR_GRAM2)"

text \<open>
  The state of a session started from the idle state \<open>s\<close>: the snapshot is the buffer
  that was active in \<open>s\<close>, the active buffer is the other one, and \<open>evs\<close> are the
  transport calls made after the first assignment to \<open>OLED_DISPLAY_GRAM\<close>.
\<close>

definition session_state :: "oled \<Rightarrow> 8 word \<Rightarrow> 8 word \<Rightarrow> 8 word \<Rightarrow> event list \<Rightarrow> oled" where
  "session_state s busy complete page evs =
       s\<lparr>OLED_GRAM := (if active_buffer s = BUFFER_A then PTR_GRAM2 else PTR_GRAM1),
         OLED_DISPLAY_GRAM := ptr_of (active_buffer s),
         OLED_DMA_TransferBusy := busy, OLED_DMA_TransferComplete := complete,
         active_buffer := (if active_buffer s = BUFFER_A then BUFFER_B else BUFFER_A),
         display_buffer := active_buffer s,
         current_dma_page := page, current_dma_buffer := enum_value (active_buffer s),
         log := log s @ [Display_Assign (ptr_of (active_buffer s))] @ evs\<rparr>"

text \<open>The state after power-on and one complete asynchronous frame.\<close>

definition first_frame :: oled where
  "first_frame = completions (replicate 8 True) (snd (OLED_UpdateAsync True power_on))"


section \<open>Text renderer (OLED.c)\<close>

text \<open>
  The glyph tables \<open>OLED_F8x16\<close> and \<open>OLED_F6x8\<close> are declared in OLED_Data.h and
  defined outside the sources at hand: they are parameters, indexed by glyph number
  (\<open>c - ' '\<close>) and byte.
\<close>

record fonts =
  OLED_F8x16 :: "nat \<Rightarrow> nat \<Rightarrow> 8 word"
  OLED_F6x8 :: "nat \<Rightarrow> nat \<Rightarrow> 8 word"

text \<open>\<open>OLED_GRAM[page][col] |= v\<close>.\<close>

definition or_byte :: "nat \<Rightarrow> nat \<Rightarrow> 8 word \<Rightarrow> gram \<Rightarrow> gram" where
  "or_byte page col v g = g(page := (g page)(col := g page col OR v))"

text \<open>
  One glyph column drawn at a row that is not page-aligned: the byte shifted up into the
  destination page, and what is shifted out into the page below when there is one.
\<close>

definition shifted_col :: "8 word \<Rightarrow> nat \<Rightarrow> nat \<Rightarrow> nat \<Rightarrow> nat \<Rightarrow> gram \<Rightarrow> gram" where
  "shifted_col data x destPage bitOffset col g =
     (let g = or_byte destPage (x + col) (push_bit bitOffset data) g
      in if destPage + 1 < 8 \<and> drop_bit (8 - bitOffset) data \<noteq> 0
         then or_byte (destPage + 1) (x + col) (drop_bit (8 - bitOffset) data) g
         else g)"

text \<open>\<open>for (col = 0; col < n; col++) { if (x + col >= 128) break; ... }\<close>.\<close>

fun glyph_cols :: "(nat \<Rightarrow> gram \<Rightarrow> gram) \<Rightarrow> nat \<Rightarrow> nat list \<Rightarrow> gram \<Rightarrow> gram" where
  "glyph_cols body x [] g = g"
| "glyph_cols body x (col # cols) g =
     (if x + col \<ge> 128 then g else glyph_cols body x cols (body col g))"

text \<open>The page loop of the 8x16 font, with its \<open>break\<close> at the bottom of the screen.\<close>

fun glyph_pages16 :: "(nat \<Rightarrow> 8 word) \<Rightarrow> nat \<Rightarrow> nat \<Rightarrow> nat \<Rightarrow> nat list \<Rightarrow> gram \<Rightarrow> gram" where
  "glyph_pages16 fontData x pageStart bitOffset [] g = g"
| "glyph_pages16 fontData x pageStart bitOffset (page # pages) g =
     (if pageStart + page \<ge> 8 then g
      else glyph_pages16 fontData x pageStart bitOffset pages
             (glyph_cols
                (\<lambda>col g. if bitOffset > 0 \<and> page = 0
                          then shifted_col (fontData (page * 8 + col)) x (pageStart + page) bitOffset col g
                          else or_byte (pageStart + page) (x + col) (fontData (page * 8 + col)) g)
                x [0..<8] g))"

definition OLED_DrawASCIIFast :: "fonts \<Rightarrow> 16 word \<Rightarrow> 16 word \<Rightarrow> char \<Rightarrow> 8 word \<Rightarrow> gram \<Rightarrow> gram" where
  "OLED_DrawASCIIFast fnt x y c fontHeight g =
     (if sint x < 0 \<or> sint x \<ge> 128 \<or> sint y < 0 \<or> sint y \<ge> 64 \<or>
         (of_char c :: nat) < of_char CHR '' '' \<or> (of_char c :: nat) > of_char CHR ''~''
      then g
      else
        let pageStart = nat (sint y div 8);
            bitOffset = nat (sint y mod 8);
            glyph = (of_char c :: nat) - of_char CHR '' ''
        in if fontHeight = 16 then
             glyph_pages16 (OLED_F8x16 fnt glyph) (nat (sint x)) pageStart bitOffset [0..<2] g
           else if fontHeight = 8 then
             glyph_cols
               (\<lambda>col g. if bitOffset > 0
                         then shifted_col (OLED_F6x8 fnt glyph col) (nat (sint x)) pageStart bitOffset col g
                         else or_byte pageStart (nat (sint x) + col) (OLED_F6x8 fnt glyph col) g)
               (nat (sint x)) [0..<6] g
           else g)"

text \<open>A C string is the list of its characters before the terminating NUL.\<close>

fun OLED_IsPureASCII :: "string \<Rightarrow> bool" where
  "OLED_IsPureASCII [] = True"
| "OLED_IsPureASCII (c # str) =
     (if (of_char c :: 8 word) AND 0x80 \<noteq> 0 then False else OLED_IsPureASCII str)"

text \<open>
  The locals \<open>currentX\<close> and \<open>currentY\<close> of \<open>OLED_Printf\<close>, the calls made to
  \<open>OLED_DrawASCIIFast\<close> so far (position and character), and the active buffer.
\<close>

record printf_state =
  currentX :: "16 word"
  currentY :: "16 word"
  glyphs :: "(16 word \<times> 16 word \<times> char) list"
  frame :: gram

text \<open>The loop of the fast path over the characters of \<open>String\<close>.\<close>

fun printf_ascii :: "fonts \<Rightarrow> 16 word \<Rightarrow> 8 word \<Rightarrow> 8 word \<Rightarrow> string \<Rightarrow> printf_state \<Rightarrow> printf_state" where
  "printf_ascii fnt X lineHeight charWidth [] st = st"
| "printf_ascii fnt X lineHeight charWidth (c # str) st =
     (if c = CHR 0x0A then
        printf_ascii fnt X lineHeight charWidth str
          (st\<lparr>currentY := currentY st + ucast lineHeight, currentX := X\<rparr>)
      else if c = CHR 0x0D then
        printf_ascii fnt X lineHeight charWidth str (st\<lparr>currentX := X\<rparr>)
      else
        printf_ascii fnt X lineHeight charWidth str
          (st\<lparr>frame := OLED_DrawASCIIFast fnt (currentX st) (currentY st) c lineHeight (frame st),
              glyphs := glyphs st @ [(currentX st, currentY st, c)],
              currentX := currentX st + ucast charWidth\<rparr>))"

text \<open>
  \<open>OLED_Printf\<close>.  The argument \<open>expanded\<close> is what the format and its arguments
  expand to (\<open>None\<close> for a NULL format); \<open>vsnprintf\<close> keeps at most 127 characters
  of it in \<open>String[128]\<close>.  The path for strings with non-ASCII bytes (glyph hash table
  and image blit) is the parameter \<open>standard_path\<close>.  The function returns nothing; the
  model returns the final cursor, the glyph calls and the buffer.
\<close>

definition OLED_Printf ::
  "fonts \<Rightarrow> (16 word \<Rightarrow> 8 word \<Rightarrow> 8 word \<Rightarrow> string \<Rightarrow> printf_state \<Rightarrow> printf_state) \<Rightarrow>
   16 word \<Rightarrow> 16 word \<Rightarrow> 8 word \<Rightarrow> string option \<Rightarrow> gram \<Rightarrow> printf_state" where
  "OLED_Printf fnt standard_path X Y FontSize expanded g =
     (let st = \<lparr>currentX = X, currentY = Y, glyphs = [], frame = g\<rparr>
      in if OLED_CHECK_COORDINATES (sint X) (sint Y) then st
         else if FontSize \<noteq> 8 \<and> FontSize \<noteq> 16 then st
         else
           case expanded of
             None \<Rightarrow> st
           | Some text \<Rightarrow>
               let lineHeight = (if FontSize = 16 then 16 else 8 :: 8 word);
                   charWidth = (if lineHeight = 16 then 8 else 6 :: 8 word);
                   String = takeWhile (\<lambda>c. c \<noteq> CHR 0x00) (take 127 text)
               in if OLED_IsPureASCII String
                  then printf_ascii fnt X lineHeight charWidth String st
                  else standard_path X lineHeight charWidth String st)"

section \<open>Chart renderer (OLED.c)\<close>

text \<open>
  \<open>OLED_DrawLineChart\<close>, the chart of a series of \<open>(x, y)\<close> samples.  The arrays
  \<open>xData\<close> and \<open>yData\<close> are pointers: an array is the function from index to
  element, and the call reads the indices \<open>0 .. pointCount - 1\<close>.  An expression that
  mixes \<open>int\<close> and \<open>uint32_t\<close> is evaluated in \<open>uint32_t\<close>, a 32-bit word, as
  C's usual arithmetic conversions do; a value stored in an \<open>int16_t\<close> is cut to 16
  bits.  \<open>OLED_DrawTimeLineChart\<close> computes its coordinates in \<open>float\<close> and is not
  part of this development.
\<close>















subsection \<open>Inputs for evaluating the renderers\<close>




section \<open>Auxiliary facts\<close>

lemma DrawPoint_outside:
  "OLED_CHECK_COORDINATES (sint X) (sint Y) \<Longrightarrow> OLED_DrawPoint X Y Color g = g"
  by (simp add: OLED_DrawPoint_def)

lemma pow2_bit8: "m < 8 \<Longrightarrow> bit ((2 :: 8 word) ^ m) n \<longleftrightarrow> n = m"
  by (auto simp: bit_simps)

lemma DrawPoint_white_bit:
  assumes "\<not> OLED_CHECK_COORDINATES (sint X) (sint Y)"
  shows "bit (OLED_DrawPoint X Y 0x01 g p c) n \<longleftrightarrow>
         bit (g p c) n \<or> (p = nat (sint Y div 8) \<and> c = nat (sint X) \<and> n = nat (sint Y mod 8))"
proof -
  have "nat (sint Y mod 8) < 8" by simp
  then show ?thesis
    using assms
    by (auto simp: OLED_DrawPoint_def OLED_COLOR_WHITE_def Let_def bit_or_iff pow2_bit8)
qed


lemma plot_append: "plot (ps @ qs) g = plot qs (plot ps g)"
  by (induction ps arbitrary: g) auto

lemma plot_bit:
  "bit (plot ps g p c) n \<longleftrightarrow> bit (g p c) n \<or> (\<exists>q \<in> set ps. hits q p c n)"
proof (induction ps arbitrary: g)
  case Nil
  then show ?case by simp
next
  case (Cons q ps)
  obtain x y where q: "q = (x, y)" by (cases q)
  show ?case
  proof (cases "OLED_CHECK_COORDINATES (sint x) (sint y)")
    case True
    then show ?thesis
      using Cons.IH [of g] by (auto simp: q DrawPoint_outside hits_def)
  next
    case False
    then show ?thesis
      using Cons.IH [of "OLED_DrawPoint x y 0x01 g"]
      by (auto simp: q DrawPoint_white_bit hits_def)
  qed
qed






lemma fold_xor_row:
  "fold (\<lambda>i r. r(i := r i XOR (0xFF :: 8 word))) [0..<n] r = (\<lambda>i. if i < n then r i XOR 0xFF else r i)"
  by (induction n) (auto simp: fun_eq_iff)

lemma fold_pages:
  "fold (\<lambda>j g. g(j := f (g j))) [0..<n] g = (\<lambda>j. if j < n then f (g j) else g j)"
  by (induction n) (auto simp: fun_eq_iff)

lemma OLED_Reverse_eq:
  "OLED_Reverse g = (\<lambda>j i. if j < 8 \<and> i < 128 then g j i XOR 0xFF else g j i)"
proof -
  have "OLED_Reverse g =
        fold (\<lambda>j g. g(j := (\<lambda>r i. if i < 128 then r i XOR 0xFF else r i) (g j))) [0..<8] g"
    by (simp add: OLED_Reverse_def OLED_PAGE_COUNT_def OLED_COLUMN_COUNT_def fold_xor_row)
  also have "\<dots> = (\<lambda>j. if j < 8 then (\<lambda>r i. if i < 128 then r i XOR 0xFF else r i) (g j) else g j)"
    by (rule fold_pages)
  finally show ?thesis
    by (auto simp: fun_eq_iff)
qed

lemma circle_loop_mono:
  "set (circle_loop X Y False x y d) \<subseteq> set (circle_loop X Y filled x y d)"
proof (induction X Y filled x y d rule: circle_loop.induct)
  case (1 X Y filled x y d)
  show ?case
  proof (cases "x <s y")
    case True
    have "set (circle_loop X Y False (x + 1) (if d <s 0 then y else y - 1)
             (if d <s 0 then d + (2 * (x + 1) + 1) else d + (2 * ((x + 1) - (y - 1)) + 1)))
          \<subseteq> set (circle_loop X Y filled (x + 1) (if d <s 0 then y else y - 1)
             (if d <s 0 then d + (2 * (x + 1) + 1) else d + (2 * ((x + 1) - (y - 1)) + 1)))"
      using "1.IH" [OF True] .
    moreover have "circle_loop X Y False x y d =
        circle_octants X Y (x + 1) (if d <s 0 then y else y - 1) @
        circle_loop X Y False (x + 1) (if d <s 0 then y else y - 1)
          (if d <s 0 then d + (2 * (x + 1) + 1) else d + (2 * ((x + 1) - (y - 1)) + 1))"
      using True by (subst circle_loop.simps) simp
    moreover have "circle_loop X Y filled x y d =
        circle_octants X Y (x + 1) (if d <s 0 then y else y - 1) @
        (if filled then circle_fill X Y (x + 1) (if d <s 0 then y else y - 1) else []) @
        circle_loop X Y filled (x + 1) (if d <s 0 then y else y - 1)
          (if d <s 0 then d + (2 * (x + 1) + 1) else d + (2 * ((x + 1) - (y - 1)) + 1))"
      using True by (subst circle_loop.simps) simp
    ultimately show ?thesis
      by (simp only: set_append) blast
  next
    case False
    then show ?thesis
      by (subst circle_loop.simps) simp
  qed
qed



lemma start_state:
  assumes "OLED_DMA_TransferBusy s = 0"
  shows "OLED_UpdateAsync True s =
    (1, s\<lparr>OLED_GRAM := (if active_buffer s = BUFFER_A then PTR_GRAM2 else PTR_GRAM1),
          OLED_DISPLAY_GRAM := ptr_of (active_buffer s),
          OLED_DMA_TransferBusy := 1, OLED_DMA_TransferComplete := 0,
          active_buffer := (if active_buffer s = BUFFER_A then BUFFER_B else BUFFER_A),
          display_buffer := active_buffer s,
          current_dma_page := 0, current_dma_buffer := enum_value (active_buffer s),
          log := log s @ [Display_Assign (ptr_of (active_buffer s))] @ page_begin (ptr_of (active_buffer s)) 0\<rparr>)"
  using assms
  by (cases "active_buffer s")
    (simp_all add: OLED_UpdateAsync_def OLED_StartDMATransferPage_def emit_def enum_value_def
      Let_def ptr_of_def page_begin_def OLED_COLUMN_COUNT_def)

lemma irq_chain:
  assumes "current_dma_page t = of_nat k" and "k < 7"
  shows "OLED_DMA_IRQHandler True True t =
     t\<lparr>OLED_DMA_TransferComplete := 0, current_dma_page := of_nat (Suc k),
       log := log t @ page_begin (if current_dma_buffer t = 0 then PTR_GRAM1 else PTR_GRAM2) (Suc k)\<rparr>"
proof -
  have "k = 0 \<or> k = 1 \<or> k = 2 \<or> k = 3 \<or> k = 4 \<or> k = 5 \<or> k = 6"
    using assms(2) by arith
  then show ?thesis
    using assms(1)
    by (elim disjE)
      (simp_all add: OLED_DMA_IRQHandler_def OLED_StartDMATransferPage_def emit_def Let_def
        page_begin_def OLED_COLUMN_COUNT_def)
qed

lemma irq_last:
  assumes "current_dma_page t = 7"
  shows "OLED_DMA_IRQHandler True bus_ok t =
     t\<lparr>OLED_DISPLAY_GRAM := (if current_dma_buffer t = 0 then PTR_GRAM1 else PTR_GRAM2),
       OLED_DMA_TransferBusy := 0, OLED_DMA_TransferComplete := 1, current_dma_page := 8,
       log := log t @ [Display_Assign (if current_dma_buffer t = 0 then PTR_GRAM1 else PTR_GRAM2)]\<rparr>"
  using assms
  by (simp add: OLED_DMA_IRQHandler_def emit_def Let_def)


lemma completions_append: "completions (xs @ ys) s = completions ys (completions xs s)"
  by (induction xs arbitrary: s) auto

lemma completions_chain:
  "current_dma_page t = of_nat k \<Longrightarrow> OLED_DMA_TransferComplete t = 0 \<Longrightarrow> k + n \<le> 7 \<Longrightarrow>
   completions (replicate n True) t =
     t\<lparr>current_dma_page := of_nat (k + n),
       log := log t @ concat (map (page_begin (if current_dma_buffer t = 0 then PTR_GRAM1 else PTR_GRAM2))
                                [Suc k..<Suc (k + n)])\<rparr>"
proof (induction n arbitrary: t k)
  case 0
  then show ?case by simp
next
  case (Suc n)
  let ?b = "if current_dma_buffer t = 0 then PTR_GRAM1 else PTR_GRAM2"
  let ?t' = "t\<lparr>OLED_DMA_TransferComplete := 0, current_dma_page := of_nat (Suc k),
       log := log t @ page_begin ?b (Suc k)\<rparr>"
  have k: "k < 7" using Suc.prems(3) by simp
  have step: "OLED_DMA_IRQHandler True True t = ?t'"
    using irq_chain [OF Suc.prems(1) k] .
  have page: "current_dma_page ?t' = of_nat (Suc k)"
    by simp
  have compl: "OLED_DMA_TransferComplete ?t' = 0"
    by simp
  have le: "Suc k + n \<le> 7" using Suc.prems(3) by simp
  have upt: "[Suc k..<Suc (k + Suc n)] = Suc k # [Suc (Suc k)..<Suc (Suc k + n)]"
    by (simp add: upt_conv_Cons)
  have "completions (replicate (Suc n) True) t = completions (replicate n True) ?t'"
    by (simp add: step)
  also have "\<dots> = ?t'\<lparr>current_dma_page := of_nat (Suc k + n),
       log := log ?t' @ concat (map (page_begin (if current_dma_buffer ?t' = 0 then PTR_GRAM1 else PTR_GRAM2))
                                [Suc (Suc k)..<Suc (Suc k + n)])\<rparr>"
    by (rule Suc.IH [OF page compl le])
  also have "\<dots> = t\<lparr>current_dma_page := of_nat (k + Suc n),
       log := log t @ concat (map (page_begin ?b) [Suc k..<Suc (k + Suc n)])\<rparr>"
    unfolding upt using Suc.prems(2) by simp
  finally show ?case .
qed

lemma enum_ptr: "(if enum_value b = 0 then PTR_GRAM1 else PTR_GRAM2) = ptr_of b"
  by (cases b) (simp_all add: enum_value_def ptr_of_def)

lemma full_frame_start:
  assumes idle: "OLED_DMA_TransferBusy s = 0"
  shows "OLED_UpdateAsync True s = (1, session_state s 1 0 0 (page_begin (ptr_of (active_buffer s)) 0))"
  by (simp add: start_state [OF idle] session_state_def)

lemma full_frame_pages:
  assumes idle: "OLED_DMA_TransferBusy s = 0" and k: "k < 8"
  shows "completions (replicate k True) (snd (OLED_UpdateAsync True s)) =
         session_state s 1 0 (of_nat k) (concat (map (page_begin (ptr_of (active_buffer s))) [0..<Suc k]))"
proof -
  let ?s0 = "session_state s 1 0 0 (page_begin (ptr_of (active_buffer s)) 0)"
  have s0: "snd (OLED_UpdateAsync True s) = ?s0"
    by (simp add: full_frame_start [OF idle])
  have p0: "current_dma_page ?s0 = of_nat 0"
    by (simp add: session_state_def)
  have c0: "OLED_DMA_TransferComplete ?s0 = 0"
    by (simp add: session_state_def)
  from k have "0 + k \<le> 7" by simp
  from completions_chain [OF p0 c0 this]
  have "completions (replicate k True) ?s0 =
      ?s0\<lparr>current_dma_page := of_nat k,
        log := log ?s0 @ concat (map (page_begin (if current_dma_buffer ?s0 = 0 then PTR_GRAM1 else PTR_GRAM2))
                                [Suc 0..<Suc k])\<rparr>"
    by simp
  also have "\<dots> = session_state s 1 0 (of_nat k)
      (concat (map (page_begin (ptr_of (active_buffer s))) (0 # [Suc 0..<Suc k])))"
    by (simp add: session_state_def enum_ptr del: upt_Suc)
  also have "0 # [Suc 0..<Suc k] = [0..<Suc k]"
    by (simp add: upt_conv_Cons [of 0] del: upt_Suc)
  finally show ?thesis
    unfolding s0 .
qed

lemma full_frame_done:
  assumes idle: "OLED_DMA_TransferBusy s = 0"
  shows "completions (replicate 8 True) (snd (OLED_UpdateAsync True s)) =
         session_state s 0 1 8 (concat (map (page_begin (ptr_of (active_buffer s))) [0..<8]) @
                                [Display_Assign (ptr_of (active_buffer s))])"
proof -
  let ?s0 = "snd (OLED_UpdateAsync True s)"
  let ?s7 = "session_state s 1 0 7 (concat (map (page_begin (ptr_of (active_buffer s))) [0..<8]))"
  have split: "replicate 8 True = replicate 7 True @ [True]"
    by (simp add: numeral_eq_Suc)
  have run7: "completions (replicate 7 True) ?s0 = ?s7"
    using full_frame_pages [OF idle, of 7] by simp
  have seven: "current_dma_page ?s7 = 7"
    by (simp add: session_state_def)
  have "completions (replicate 8 True) ?s0 = OLED_DMA_IRQHandler True True ?s7"
    unfolding split completions_append run7 by simp
  also have "\<dots> = session_state s 0 1 8 (concat (map (page_begin (ptr_of (active_buffer s))) [0..<8]) @
                                [Display_Assign (ptr_of (active_buffer s))])"
    unfolding irq_last [OF seven] by (simp add: session_state_def enum_ptr)
  finally show ?thesis .
qed

lemma count_page_begin:
  "length (filter is_Set_Pos (concat (map (page_begin b) [0..<n]))) = n"
  "length (filter is_Display_Assign (concat (map (page_begin b) [0..<n]))) = 0"
  by (induction n) (simp_all add: page_begin_def is_Set_Pos_def is_Display_Assign_def)

lemma area_page_cong: "OLED_DISPLAY_GRAM t = OLED_DISPLAY_GRAM s \<Longrightarrow> area_page t = area_page s"
  by (simp add: area_page_def fun_eq_iff)

lemma unat8_succ: "unat (page :: 8 word) < 255 \<Longrightarrow> unat (page + 1) = Suc (unat page)"
  by (simp add: unat_word_ariths)

lemma c_div_nonneg: "0 \<le> a \<Longrightarrow> c_div a 8 = a div 8"
  by (simp add: c_div_def sgn_if)

lemma unat_page_of: "0 \<le> y \<Longrightarrow> y < 64 \<Longrightarrow> unat (word_of_int (y div 8) :: 8 word) = nat (y div 8)"
proof -
  assume a: "0 \<le> y" "y < 64"
  then have "0 \<le> y div 8" "y div 8 < 8" by auto
  then show ?thesis
    by (simp add: unat_eq_nat_uint uint_word_of_int take_bit_int_eq_self)
qed

lemma unat_len_of: "0 < n \<Longrightarrow> n \<le> 128 \<Longrightarrow> unat (word_of_int n :: 16 word) = nat n"
  by (simp add: unat_eq_nat_uint uint_word_of_int take_bit_int_eq_self)

lemma dma_bytes_in_screen:
  assumes "0 \<le> x1" "x1 \<le> x2" "x2 < 128" "p < 8"
  shows "dma_bytes s ptr (int p * 128 + x1) (nat (x2 - x1 + 1)) =
         map (\<lambda>c. Some (deref s ptr p c)) [nat x1..<Suc (nat x2)]"
proof (rule nth_equalityI)
  show "length (dma_bytes s ptr (int p * 128 + x1) (nat (x2 - x1 + 1))) =
        length (map (\<lambda>c. Some (deref s ptr p c)) [nat x1..<Suc (nat x2)])"
    using assms by (simp add: dma_bytes_def) linarith
next
  fix i
  assume "i < length (dma_bytes s ptr (int p * 128 + x1) (nat (x2 - x1 + 1)))"
  then have i: "int i \<le> x2 - x1"
    using assms by (simp add: dma_bytes_def)
  have col: "0 \<le> x1 + int i" "x1 + int i < 128"
    using assms i by auto
  have d: "(int p * 128 + x1 + int i) div 128 = int p"
    using col by (simp add: div_pos_pos_trivial add.assoc)
  have m: "(int p * 128 + x1 + int i) mod 128 = x1 + int i"
    using col by (simp add: mod_pos_pos_trivial add.assoc)
  have r: "0 \<le> int p * 128 + x1 + int i" "int p * 128 + x1 + int i < 1024"
    using col assms(4) by auto
  have idx: "nat x1 + i < Suc (nat x2)"
    using assms i by linarith
  have "dma_bytes s ptr (int p * 128 + x1) (nat (x2 - x1 + 1)) ! i =
        Some (deref s ptr p (nat (x1 + int i)))"
    using i assms r by (simp add: dma_bytes_def read_flat_def d m)
  also have "\<dots> = map (\<lambda>c. Some (deref s ptr p c)) [nat x1..<Suc (nat x2)] ! i"
  proof -
    have "[nat x1..<Suc (nat x2)] ! i = nat x1 + i"
      using idx by (rule nth_upt)
    moreover have "i < length [nat x1..<Suc (nat x2)]"
      using idx by simp
    ultimately show ?thesis
      using assms by (simp add: nat_add_distrib del: upt_Suc)
  qed
  finally show "dma_bytes s ptr (int p * 128 + x1) (nat (x2 - x1 + 1)) ! i =
        map (\<lambda>c. Some (deref s ptr p c)) [nat x1..<Suc (nat x2)] ! i" .
qed

lemma busy_wait_idle: "OLED_DMA_TransferBusy s = 0 \<Longrightarrow> busy_wait spin s = Some s"
  by (cases spin) simp_all

lemma OLED_UpdateArea_rejected:
  "sint x1 \<ge> 128 \<or> sint y1 \<ge> 64 \<or> sint x2 < 0 \<or> sint y2 < 0 \<or> sint x1 > sint x2 \<or> sint y1 > sint y2
   \<Longrightarrow> OLED_UpdateArea spin hw x1 y1 x2 y2 s = Some s"
  by (auto simp: OLED_UpdateArea_def OLED_COLUMN_COUNT_def OLED_HEIGHT_def)

lemma sint_ucast8: "sint (ucast (w :: 8 word) :: 16 word) = uint w"
proof -
  have hi: "uint w < 256"
    using uint_lt2p [of w] by simp
  have lo: "0 \<le> uint w"
    by simp
  have "- 32768 \<le> uint w"
    using lo by linarith
  moreover have "uint w < 32768"
    using hi by linarith
  ultimately show ?thesis
    by (simp add: signed_ucast_eq signed_take_bit_int_eq_self)
qed

lemma sint_add_ucast8:
  "- 32768 \<le> sint (a :: 16 word) + uint (w :: 8 word) \<Longrightarrow> sint a + uint w < 32768 \<Longrightarrow>
   sint (a + ucast w) = sint a + uint w"
  by (simp add: sint_word_ariths sint_ucast8 signed_take_bit_int_eq_self)

lemma pure_append: "OLED_IsPureASCII (a @ b) \<longleftrightarrow> OLED_IsPureASCII a \<and> OLED_IsPureASCII b"
  by (induction a) simp_all

lemma printf_ascii_append:
  "printf_ascii fnt X lh cw (a @ b) st = printf_ascii fnt X lh cw b (printf_ascii fnt X lh cw a st)"
  by (induction a arbitrary: st) simp_all

lemma printf_ascii_chars:
  "map (\<lambda>q. snd (snd q)) (glyphs (printf_ascii fnt X lh cw s st)) =
   map (\<lambda>q. snd (snd q)) (glyphs st) @ filter (\<lambda>c. c \<noteq> CHR 0x0A \<and> c \<noteq> CHR 0x0D) s"
  by (induction s arbitrary: st) simp_all

lemma printf_ascii_bounds:
  assumes X: "0 \<le> sint X" "sint X \<le> 127" and cw: "uint cw \<le> 8" and lh: "uint lh \<le> 16"
  shows "0 \<le> sint (currentX st) \<Longrightarrow> sint (currentX st) \<le> 127 + 8 * int k \<Longrightarrow>
         0 \<le> sint (currentY st) \<Longrightarrow> sint (currentY st) \<le> 63 + 16 * int k \<Longrightarrow>
         k + length s \<le> 127 \<Longrightarrow>
         0 \<le> sint (currentX (printf_ascii fnt X lh cw s st)) \<and>
         sint (currentX (printf_ascii fnt X lh cw s st)) \<le> 127 + 8 * int (k + length s) \<and>
         0 \<le> sint (currentY (printf_ascii fnt X lh cw s st)) \<and>
         sint (currentY (printf_ascii fnt X lh cw s st)) \<le> 63 + 16 * int (k + length s)"
proof (induction s arbitrary: st k)
  case Nil
  then show ?case by simp
next
  case (Cons c s)
  have k: "Suc k + length s \<le> 127"
    using Cons.prems(5) by simp
  have k127: "int k \<le> 126"
    using Cons.prems(5) by simp
  have cw0: "0 \<le> uint cw" and lh0: "0 \<le> uint lh"
    by simp_all
  have sx: "sint (currentX st + ucast cw) = sint (currentX st) + uint cw"
    using Cons.prems(1,2) cw cw0 k127 by (intro sint_add_ucast8) linarith+
  have sy: "sint (currentY st + ucast lh) = sint (currentY st) + uint lh"
    using Cons.prems(3,4) lh lh0 k127 by (intro sint_add_ucast8) linarith+
  have eq: "Suc k + length s = k + length (c # s)"
    by simp
  consider (nl) "c = CHR 0x0A" | (cr) "c \<noteq> CHR 0x0A" "c = CHR 0x0D" | (ch) "c \<noteq> CHR 0x0A" "c \<noteq> CHR 0x0D"
    by blast
  then show ?case
  proof cases
    case nl
    let ?st = "st\<lparr>currentY := currentY st + ucast lh, currentX := X\<rparr>"
    have a: "0 \<le> sint (currentX ?st)" and b: "sint (currentX ?st) \<le> 127 + 8 * int (Suc k)"
      using X by simp_all
    have c: "0 \<le> sint (currentY ?st)" and d: "sint (currentY ?st) \<le> 63 + 16 * int (Suc k)"
      using Cons.prems(3,4) lh lh0 by (simp_all add: sy)
    have step: "printf_ascii fnt X lh cw (c # s) st = printf_ascii fnt X lh cw s ?st"
      using nl by simp
    show ?thesis
      unfolding step eq [symmetric] by (rule Cons.IH [OF a b c d k])
  next
    case cr
    let ?st = "st\<lparr>currentX := X\<rparr>"
    have a: "0 \<le> sint (currentX ?st)" and b: "sint (currentX ?st) \<le> 127 + 8 * int (Suc k)"
      using X by simp_all
    have c: "0 \<le> sint (currentY ?st)" and d: "sint (currentY ?st) \<le> 63 + 16 * int (Suc k)"
      using Cons.prems(3,4) by simp_all
    have step: "printf_ascii fnt X lh cw (c # s) st = printf_ascii fnt X lh cw s ?st"
      using cr by simp
    show ?thesis
      unfolding step eq [symmetric] by (rule Cons.IH [OF a b c d k])
  next
    case ch
    let ?st = "st\<lparr>frame := OLED_DrawASCIIFast fnt (currentX st) (currentY st) c lh (frame st),
              glyphs := glyphs st @ [(currentX st, currentY st, c)],
              currentX := currentX st + ucast cw\<rparr>"
    have a: "0 \<le> sint (currentX ?st)" and b: "sint (currentX ?st) \<le> 127 + 8 * int (Suc k)"
      using Cons.prems(1,2) cw cw0 by (simp_all add: sx)
    have c: "0 \<le> sint (currentY ?st)" and d: "sint (currentY ?st) \<le> 63 + 16 * int (Suc k)"
      using Cons.prems(3,4) by simp_all
    have step: "printf_ascii fnt X lh cw (c # s) st = printf_ascii fnt X lh cw s ?st"
      using ch by simp
    show ?thesis
      unfolding step eq [symmetric] by (rule Cons.IH [OF a b c d k])
  qed
qed

lemma printf_fast_path:
  assumes on: "0 \<le> sint X" "sint X \<le> 127" "0 \<le> sint Y" "sint Y \<le> 63"
    and font: "FontSize = 8 \<or> FontSize = 16"
    and pure: "OLED_IsPureASCII text"
    and nonul: "CHR 0x00 \<notin> set text"
    and len: "length text \<le> 127"
  shows "OLED_Printf fnt std X Y FontSize (Some text) g =
         printf_ascii fnt X FontSize (if FontSize = 8 then 6 else 8) text
           \<lparr>currentX = X, currentY = Y, glyphs = [], frame = g\<rparr>"
proof -
  have "takeWhile (\<lambda>c. c \<noteq> CHR 0x00) (take 127 text) = text"
    using nonul len by (simp add: takeWhile_eq_all_conv) metis
  moreover have "\<not> OLED_CHECK_COORDINATES (sint X) (sint Y)"
    using on by (simp add: OLED_CHECK_COORDINATES_def OLED_WIDTH_def OLED_HEIGHT_def)
  ultimately show ?thesis
    using font pure by (auto simp: OLED_Printf_def Let_def)
qed

lemma irq_no_chain:
  assumes "7 \<le> unat (current_dma_page t)" and "unat (current_dma_page t) < 255"
  shows "OLED_DMA_IRQHandler True bus_ok t =
     t\<lparr>OLED_DISPLAY_GRAM := session_ptr t, OLED_DMA_TransferBusy := 0,
       OLED_DMA_TransferComplete := 1, current_dma_page := current_dma_page t + 1,
       log := log t @ [Display_Assign (session_ptr t)]\<rparr>"
proof -
  have "unat (current_dma_page t + 1) = Suc (unat (current_dma_page t))"
    using assms(2) by (rule unat8_succ)
  then have "\<not> current_dma_page t + 1 < 8"
    using assms(1) by (simp add: word_less_nat_alt)
  then show ?thesis
    by (simp add: OLED_DMA_IRQHandler_def emit_def Let_def session_ptr_def)
qed

lemma area_page_sent:
  assumes cur: "7 \<le> unat (current_dma_page s)" "unat (current_dma_page s) < 255"
    and cons: "OLED_DISPLAY_GRAM s = session_ptr s"
    and le: "page \<le> end_page"
  shows "area_loop (DMA_started [bus_ok] True # hw) x1 dl end_page page s =
         area_loop hw x1 dl end_page (page + 1)
           (s\<lparr>OLED_DMA_TransferBusy := 0, OLED_DMA_TransferComplete := 1,
              current_dma_page := current_dma_page s + 1,
              log := log s @ area_page_events s x1 (unat dl) (unat page)\<rparr>)"
  using le cur cons
  by (cases s)
    (simp add: Let_def emit_def irq_no_chain session_ptr_def area_page_events_def area_page_def)

lemma area_loop_all_sent:
  "unat end_page = e \<Longrightarrow> e < 255 \<Longrightarrow> unat page = p \<Longrightarrow> Suc e - p = n \<Longrightarrow> p \<le> Suc e \<Longrightarrow>
   7 \<le> unat (current_dma_page s) \<Longrightarrow> unat (current_dma_page s) + n \<le> 255 \<Longrightarrow>
   OLED_DISPLAY_GRAM s = session_ptr s \<Longrightarrow>
   area_loop (replicate n (DMA_started [True] True)) x1 dl end_page page s =
     Some (s\<lparr>OLED_DMA_TransferBusy := 0,
             OLED_DMA_TransferComplete := (if p \<le> e then 1 else OLED_DMA_TransferComplete s),
             current_dma_page := current_dma_page s + of_nat n,
             log := log s @ concat (map (area_page_events s x1 (unat dl)) [p..<Suc e])\<rparr>)"
proof (induction n arbitrary: p page s)
  case 0
  then have "p = Suc e" by simp
  with 0 have "\<not> page \<le> end_page"
    by (simp add: word_le_nat_alt)
  with \<open>p = Suc e\<close> show ?case by simp
next
  case (Suc n)
  then have pe: "p \<le> e" by simp
  with Suc have le: "page \<le> end_page"
    by (simp add: word_le_nat_alt)
  have next_page: "unat (page + 1) = Suc p"
    using Suc.prems pe by (simp add: unat8_succ)
  have cur: "7 \<le> unat (current_dma_page s)" "unat (current_dma_page s) < 255"
    using Suc.prems by simp_all
  let ?s' = "s\<lparr>OLED_DMA_TransferBusy := 0, OLED_DMA_TransferComplete := 1,
              current_dma_page := current_dma_page s + 1,
              log := log s @ area_page_events s x1 (unat dl) p\<rparr>"
  have cur': "unat (current_dma_page ?s') = Suc (unat (current_dma_page s))"
    using cur(2) by (simp add: unat8_succ)
  have "area_loop (replicate (Suc n) (DMA_started [True] True)) x1 dl end_page page s =
        area_loop (replicate n (DMA_started [True] True)) x1 dl end_page (page + 1) ?s'"
    using area_page_sent [OF cur Suc.prems(8) le, of True "replicate n (DMA_started [True] True)" x1 dl]
      Suc.prems(3) by simp
  also have "\<dots> = Some (?s'\<lparr>OLED_DMA_TransferBusy := 0,
             OLED_DMA_TransferComplete := (if Suc p \<le> e then 1 else OLED_DMA_TransferComplete ?s'),
             current_dma_page := current_dma_page ?s' + of_nat n,
             log := log ?s' @ concat (map (area_page_events ?s' x1 (unat dl)) [Suc p..<Suc e])\<rparr>)"
  proof (rule Suc.IH [OF Suc.prems(1,2) next_page])
    show "Suc e - Suc p = n" using Suc.prems(4) by simp
    show "Suc p \<le> Suc e" using pe by simp
    show "7 \<le> unat (current_dma_page ?s')" using cur(1) cur' by simp
    show "unat (current_dma_page ?s') + n \<le> 255" using Suc.prems(7) cur' by simp
    show "OLED_DISPLAY_GRAM ?s' = session_ptr ?s'"
      using Suc.prems(8) by (simp add: session_ptr_def)
  qed
  also have "\<dots> = Some (s\<lparr>OLED_DMA_TransferBusy := 0,
             OLED_DMA_TransferComplete := (if p \<le> e then 1 else OLED_DMA_TransferComplete s),
             current_dma_page := current_dma_page s + of_nat (Suc n),
             log := log s @ concat (map (area_page_events s x1 (unat dl)) [p..<Suc e])\<rparr>)"
  proof -
    have "area_page_events ?s' = area_page_events s"
      by (simp add: area_page_events_def area_page_def fun_eq_iff)
    then show ?thesis
      using pe by (simp add: upt_conv_Cons [of p] add.assoc del: upt_Suc)
  qed
  finally show ?case .
qed


lemma OLED_UpdateArea_in_screen:
  assumes "0 \<le> sint x1" "sint x1 \<le> sint x2" "sint x2 < 128"
    and "0 \<le> sint y1" "sint y1 \<le> sint y2" "sint y2 < 64"
    and idle: "OLED_DMA_TransferBusy s = 0"
    and cur: "7 \<le> unat (current_dma_page s)"
      "unat (current_dma_page s) + (Suc (nat (sint y2 div 8)) - nat (sint y1 div 8)) \<le> 255"
    and cons: "OLED_DISPLAY_GRAM s = session_ptr s"
  shows "OLED_UpdateArea spin (replicate (Suc (nat (sint y2 div 8)) - nat (sint y1 div 8)) (DMA_started [True] True))
           x1 y1 x2 y2 s =
       Some (s\<lparr>OLED_DMA_TransferComplete := 1,
               current_dma_page := current_dma_page s + of_nat (Suc (nat (sint y2 div 8)) - nat (sint y1 div 8)),
               log := log s @ concat (map (area_page_events s x1 (nat (sint x2 - sint x1 + 1)))
                                       [nat (sint y1 div 8)..<Suc (nat (sint y2 div 8))])\<rparr>)"
proof -
  let ?sp = "word_of_int (sint y1 div 8) :: 8 word"
  let ?ep = "word_of_int (sint y2 div 8) :: 8 word"
  let ?dl = "word_of_int (sint x2 - sint x1 + 1) :: 16 word"
  let ?s1 = "s\<lparr>OLED_DMA_TransferBusy := 1\<rparr>"
  let ?n = "Suc (nat (sint y2 div 8)) - nat (sint y1 div 8)"
  have e: "unat ?ep = nat (sint y2 div 8)"
    using assms by (intro unat_page_of) auto
  have p: "unat ?sp = nat (sint y1 div 8)"
    using assms by (intro unat_page_of) auto
  have dl: "unat ?dl = nat (sint x2 - sint x1 + 1)"
    using assms by (intro unat_len_of) auto
  have "?dl = x2 - x1 + 1"
    by simp
  with dl have dl': "unat (x2 - x1 + 1) = nat (sint x2 - sint x1 + 1)"
    by simp
  have e255: "nat (sint y2 div 8) < 255"
    using assms by auto
  have ple: "nat (sint y1 div 8) \<le> nat (sint y2 div 8)"
    using assms by (simp add: zdiv_mono1)
  have guard: "\<not> (sint x1 \<ge> int OLED_COLUMN_COUNT \<or> sint y1 \<ge> OLED_HEIGHT \<or> sint x2 < 0 \<or> sint y2 < 0 \<or>
         sint x1 > sint x2 \<or> sint y1 > sint y2)"
    using assms by (simp add: OLED_COLUMN_COUNT_def OLED_HEIGHT_def)
  have "OLED_UpdateArea spin (replicate ?n (DMA_started [True] True)) x1 y1 x2 y2 s =
        area_loop (replicate ?n (DMA_started [True] True)) x1 ?dl ?ep ?sp ?s1"
    unfolding OLED_UpdateArea_def using guard idle assms
    by (simp add: c_div_nonneg Let_def busy_wait_idle)
  also have "\<dots> = Some (?s1\<lparr>OLED_DMA_TransferBusy := 0,
             OLED_DMA_TransferComplete := (if nat (sint y1 div 8) \<le> nat (sint y2 div 8) then 1 else OLED_DMA_TransferComplete ?s1),
             current_dma_page := current_dma_page ?s1 + of_nat ?n,
             log := log ?s1 @ concat (map (area_page_events ?s1 x1 (unat ?dl)) [nat (sint y1 div 8)..<Suc (nat (sint y2 div 8))])\<rparr>)"
  proof (rule area_loop_all_sent [OF e e255 p])
    show "Suc (nat (sint y2 div 8)) - nat (sint y1 div 8) = ?n" by simp
    show "nat (sint y1 div 8) \<le> Suc (nat (sint y2 div 8))" using ple by simp
    show "7 \<le> unat (current_dma_page ?s1)" using cur(1) by simp
    show "unat (current_dma_page ?s1) + ?n \<le> 255" using cur(2) by simp
    show "OLED_DISPLAY_GRAM ?s1 = session_ptr ?s1" using cons by (simp add: session_ptr_def)
  qed
  also have "\<dots> = Some (s\<lparr>OLED_DMA_TransferComplete := 1,
               current_dma_page := current_dma_page s + of_nat ?n,
               log := log s @ concat (map (area_page_events s x1 (nat (sint x2 - sint x1 + 1)))
                                       [nat (sint y1 div 8)..<Suc (nat (sint y2 div 8))])\<rparr>)"
  proof -
    have same: "area_page_events ?s1 = area_page_events s"
      by (simp add: area_page_events_def area_page_def fun_eq_iff)
    have "s\<lparr>OLED_DMA_TransferBusy := OLED_DMA_TransferBusy s\<rparr> = s"
      by simp
    then have restore: "s\<lparr>OLED_DMA_TransferBusy := 0\<rparr> = s"
      unfolding idle .
    have "?s1\<lparr>OLED_DMA_TransferBusy := 0\<rparr> = s"
      using restore by simp
    then show ?thesis
      using ple by (simp add: dl' same del: upt_Suc)
  qed
  finally show ?thesis .
qed

lemma first_frame_eq:
  "first_frame =
     session_state power_on 0 1 8 (concat (map (page_begin PTR_GRAM1) [0..<8]) @ [Display_Assign PTR_GRAM1])"
proof -
  have idle0: "OLED_DMA_TransferBusy power_on = 0"
    by (simp add: power_on_def)
  show ?thesis
    unfolding first_frame_def full_frame_done [OF idle0] by (simp add: power_on_def ptr_of_def)
qed

lemma OLED_UpdateArea_beyond_right:
  "OLED_UpdateArea spin [DMA_started [True] True] 0 0 200 0 first_frame =
     Some (first_frame\<lparr>current_dma_page := 9,
             log := log first_frame @ [Set_Pos 0 0, DMA_Send PTR_GRAM1 0 201, Display_Assign PTR_GRAM1]\<rparr>)"
  unfolding first_frame_eq
  by (simp add: OLED_UpdateArea_def OLED_COLUMN_COUNT_def OLED_HEIGHT_def c_div_def power_on_def
      emit_def Let_def session_state_def OLED_DMA_IRQHandler_def enum_value_def ptr_of_def
      busy_wait_idle del: upt_Suc)

lemma OLED_UpdateArea_below:
  "OLED_UpdateArea spin [DMA_started [True] True, DMA_started [True] True] 0 56 0 64 first_frame =
     Some (first_frame\<lparr>current_dma_page := 10,
             log := log first_frame @
               [Set_Pos 0 7, DMA_Send PTR_GRAM1 896 1, Display_Assign PTR_GRAM1,
                Set_Pos 0 8, DMA_Send PTR_GRAM1 1024 1, Display_Assign PTR_GRAM1]\<rparr>)"
  unfolding first_frame_eq
  by (simp add: OLED_UpdateArea_def OLED_COLUMN_COUNT_def OLED_HEIGHT_def c_div_def power_on_def
      emit_def Let_def session_state_def OLED_DMA_IRQHandler_def enum_value_def ptr_of_def
      busy_wait_idle del: upt_Suc)

lemma OLED_UpdateArea_chains_frame:
  "OLED_UpdateArea spin [DMA_started (replicate 8 True) True] 0 0 10 7 power_on =
     Some (power_on\<lparr>OLED_DMA_TransferComplete := 1, current_dma_page := 8,
             log := [Set_Pos 0 0, DMA_Send PTR_GRAM1 0 11] @
                    concat (map (page_begin PTR_GRAM1) [1..<8]) @ [Display_Assign PTR_GRAM1]\<rparr>)"
proof -
  have r: "replicate 8 True = [True, True, True, True, True, True, True, True]"
    by code_simp
  have u: "[1..<8] = [1, 2, 3, 4, 5, 6, 7 :: nat]"
    by code_simp
  show ?thesis
    unfolding r u
    by (simp add: OLED_UpdateArea_def OLED_COLUMN_COUNT_def OLED_HEIGHT_def c_div_def power_on_def
      emit_def Let_def OLED_DMA_IRQHandler_def OLED_StartDMATransferPage_def page_begin_def
      busy_wait_idle)
qed

section \<open>Pixel access\<close>

text \<open>
  C3.  For every \<open>(x, y)\<close> with \<open>0 \<le> x < COLUMN_COUNT\<close> and \<open>0 \<le> y < 8 * PAGE_COUNT\<close>,
  drawing the point WHITE makes bit \<open>y mod 8\<close> of byte \<open>[y / 8][x]\<close> of the active
  buffer 1, drawing it BLACK makes that bit 0, and every other bit of the buffer keeps
  its value; for every \<open>(x, y)\<close> outside that range the call leaves the whole buffer
  unchanged, whatever the colour.
\<close>

theorem OLED_DrawPoint_bit:
  fixes X Y :: "16 word" and g :: gram
  shows "(0 \<le> sint X \<and> sint X < int OLED_COLUMN_COUNT \<and> 0 \<le> sint Y \<and> sint Y < 8 * int OLED_PAGE_COUNT \<longrightarrow>
           (\<forall>p c n. bit (OLED_DrawPoint X Y OLED_COLOR_WHITE g p c) n =
              (if p = nat (sint Y div 8) \<and> c = nat (sint X) \<and> n = nat (sint Y mod 8)
               then True else bit (g p c) n)) \<and>
           (\<forall>p c n. bit (OLED_DrawPoint X Y OLED_COLOR_BLACK g p c) n =
              (if p = nat (sint Y div 8) \<and> c = nat (sint X) \<and> n = nat (sint Y mod 8)
               then False else bit (g p c) n)))
       \<and> (\<not> (0 \<le> sint X \<and> sint X < int OLED_COLUMN_COUNT \<and> 0 \<le> sint Y \<and> sint Y < 8 * int OLED_PAGE_COUNT) \<longrightarrow>
           (\<forall>Color. OLED_DrawPoint X Y Color g = g))"
proof -
  have lt8: "nat (sint Y mod 8) < 8"
    by simp
  have one: "\<And>n. bit ((2 :: 8 word) ^ nat (sint Y mod 8)) n \<longleftrightarrow> n = nat (sint Y mod 8)"
    using lt8 by (auto simp: bit_simps)
  show ?thesis
    by (auto simp: OLED_DrawPoint_def OLED_CHECK_COORDINATES_def OLED_WIDTH_def OLED_HEIGHT_def
        OLED_COLUMN_COUNT_def OLED_PAGE_COUNT_def OLED_COLOR_WHITE_def OLED_COLOR_BLACK_def
        Let_def bit_or_iff bit_and_iff bit_not_iff one dest: bit_imp_le_length)
qed

theorem OLED_DrawPoint_bit_witness:
  "bit (OLED_DrawPoint 5 10 OLED_COLOR_WHITE (\<lambda>p c. 0) 1 5) 2
   \<and> \<not> bit (OLED_DrawPoint 5 10 OLED_COLOR_BLACK (\<lambda>p c. 0xFF) 1 5) 2
   \<and> OLED_DrawPoint 128 10 OLED_COLOR_WHITE (\<lambda>p c. 0) = (\<lambda>p c. 0)"
  using OLED_DrawPoint_bit [of 5 10 "\<lambda>p c. 0"] OLED_DrawPoint_bit [of 5 10 "\<lambda>p c. 0xFF"]
    OLED_DrawPoint_bit [of 128 10 "\<lambda>p c. 0"]
  by (simp add: OLED_COLUMN_COUNT_def OLED_PAGE_COUNT_def)

section \<open>Full-frame inversion\<close>

text \<open>
  C6.  For every buffer state, applying the full-frame reverse operation twice gives back
  exactly the original contents, bit for bit.
\<close>

theorem OLED_Reverse_twice: "OLED_Reverse (OLED_Reverse g) = g"
  by (simp add: OLED_Reverse_eq fun_eq_iff xor.assoc)

section \<open>Circles\<close>

text \<open>
  C7.  For every centre \<open>(X, Y)\<close> and radius, the points plotted by drawing the circle
  unfilled (\<open>IsFilled = 0\<close>) are among the points plotted by drawing the same circle with
  any other value of \<open>IsFilled\<close>; and, starting from the same buffer, every pixel lit
  after the unfilled draw is lit after the filled draw.
\<close>

theorem OLED_DrawCircle_unfilled_subset_filled:
  "set (OLED_DrawCircle_points X Y Radius 0) \<subseteq> set (OLED_DrawCircle_points X Y Radius IsFilled)
   \<and> lit (OLED_DrawCircle X Y Radius 0 g) \<subseteq> lit (OLED_DrawCircle X Y Radius IsFilled g)"
proof -
  have pts: "set (OLED_DrawCircle_points X Y Radius 0) \<subseteq> set (OLED_DrawCircle_points X Y Radius IsFilled)"
    using circle_loop_mono [of X Y 0 Radius "1 - Radius" "IsFilled \<noteq> 0"]
    by (auto simp: OLED_DrawCircle_points_def)
  have "\<And>p c n. bit (OLED_DrawCircle X Y Radius 0 g p c) n \<Longrightarrow> bit (OLED_DrawCircle X Y Radius IsFilled g p c) n"
    using pts unfolding OLED_DrawCircle_def plot_bit by blast
  then have "lit (OLED_DrawCircle X Y Radius 0 g) \<subseteq> lit (OLED_DrawCircle X Y Radius IsFilled g)"
    unfolding lit_def by blast
  with pts show ?thesis by simp
qed

section \<open>Lines\<close>




text \<open>
  C10.  If either endpoint of a line lies outside the screen (x outside 0..127 or y
  outside 0..63) the call leaves the buffer unchanged: nothing is clipped, even when part
  of the segment is on the screen.
\<close>

theorem OLED_DrawLine_offscreen_endpoint_noop:
  "\<not> (0 \<le> sint X0 \<and> sint X0 \<le> 127 \<and> 0 \<le> sint Y0 \<and> sint Y0 \<le> 63) \<or>
   \<not> (0 \<le> sint X1 \<and> sint X1 \<le> 127 \<and> 0 \<le> sint Y1 \<and> sint Y1 \<le> 63)
   \<Longrightarrow> OLED_DrawLine X0 Y0 X1 Y1 Color g = g"
  by (auto simp: OLED_DrawLine_def OLED_DrawLine_points_def OLED_CHECK_COORDINATES_def
      OLED_WIDTH_def OLED_HEIGHT_def)

theorem OLED_DrawLine_offscreen_endpoint_noop_witness:
  "OLED_DrawLine (- 1) 0 10 0 OLED_COLOR_WHITE (\<lambda>p c. 0) = (\<lambda>p c. 0)
   \<and> OLED_DrawLine 0 0 10 64 OLED_COLOR_WHITE (\<lambda>p c. 0) = (\<lambda>p c. 0)"
  using OLED_DrawLine_offscreen_endpoint_noop [of "- 1" 0 10 0 OLED_COLOR_WHITE "\<lambda>p c. 0"]
    OLED_DrawLine_offscreen_endpoint_noop [of 0 0 10 64 OLED_COLOR_WHITE "\<lambda>p c. 0"]
  by simp

section \<open>Rectangles\<close>

text \<open>
  C5.  The claim is that X and Y beyond the screen wrap modulo 128 and 64, for X \<open>\<ge>\<close> 128
  and Y \<open>\<ge>\<close> 64 too.  The code returns at \<open>OLED_CHECK_RECTANGLE\<close> before its own
  wrap-around statements \<open>if (X >= 128) X %= 128\<close> and \<open>if (Y >= 64) Y %= 64\<close> are
  reached: a 1 by 1 rectangle at \<open>(128, 0)\<close> or at \<open>(0, 64)\<close> draws nothing, while the
  rectangle at \<open>(0, 0)\<close>, where the wrap would put it, lights pixel \<open>(0, 0)\<close>.
\<close>

theorem OLED_DrawRectangle_beyond_right_edge:
  "OLED_DrawRectangle 128 0 1 1 0 g = Some g
   \<and> OLED_DrawRectangle 0 64 1 1 0 g = Some g
   \<and> (\<exists>g'. OLED_DrawRectangle 0 0 1 1 0 g = Some g' \<and> bit (g' 0 0) 0)"
proof -
  have a: "OLED_DrawRectangle_points 128 0 1 1 0 = Some []"
    by code_simp
  have b: "OLED_DrawRectangle_points 0 64 1 1 0 = Some []"
    by code_simp
  have c: "OLED_DrawRectangle_points 0 0 1 1 0 = Some [(0, 0), (0, 0), (0, 0), (0, 0)]"
    by code_simp
  have "hits (to_int16 (0, 0)) 0 0 0"
    by (simp add: hits_def to_int16_def OLED_CHECK_COORDINATES_def OLED_WIDTH_def OLED_HEIGHT_def)
  then have "bit (plot (map to_int16 [(0, 0), (0, 0), (0, 0), (0, 0)]) g 0 0) 0"
    unfolding plot_bit by simp
  then show ?thesis
    by (simp add: OLED_DrawRectangle_def a b c)
qed

section \<open>Asynchronous full-frame transfer\<close>

text \<open>
  C1, as amended.  From an idle state, with the bus answering every wait, the
  asynchronous update returns 1 and has already begun page 0 and set the display-buffer
  pointer to the snapshotted buffer.  After \<open>k < 8\<close> completion signals the session is
  busy at page \<open>k\<close>, pages \<open>0..k\<close> have been begun in order and nothing else has
  happened.  The 8th completion signal clears busy and assigns the display-buffer pointer
  the snapshotted buffer once more.  Over the session there are exactly 8 page-begin
  sequences and exactly 2 assignments to the display-buffer pointer.
\<close>

theorem OLED_UpdateAsync_full_frame:
  "OLED_DMA_TransferBusy s = 0 \<Longrightarrow>
   fst (OLED_UpdateAsync True s) = 1 \<and>
   (\<forall>k<8. completions (replicate k True) (snd (OLED_UpdateAsync True s)) =
      session_state s 1 0 (of_nat k) (concat (map (page_begin (ptr_of (active_buffer s))) [0..<Suc k]))) \<and>
   completions (replicate 8 True) (snd (OLED_UpdateAsync True s)) =
      session_state s 0 1 8 (concat (map (page_begin (ptr_of (active_buffer s))) [0..<8]) @
                             [Display_Assign (ptr_of (active_buffer s))]) \<and>
   length (filter is_Set_Pos (drop (length (log s))
      (log (completions (replicate 8 True) (snd (OLED_UpdateAsync True s)))))) = 8 \<and>
   length (filter is_Display_Assign (drop (length (log s))
      (log (completions (replicate 8 True) (snd (OLED_UpdateAsync True s)))))) = 2"
proof -
  assume idle: "OLED_DMA_TransferBusy s = 0"
  have a: "fst (OLED_UpdateAsync True s) = 1"
    by (simp add: full_frame_start [OF idle])
  have b: "\<forall>k<8. completions (replicate k True) (snd (OLED_UpdateAsync True s)) =
      session_state s 1 0 (of_nat k) (concat (map (page_begin (ptr_of (active_buffer s))) [0..<Suc k]))"
    using full_frame_pages [OF idle] by blast
  note c = full_frame_done [OF idle]
  have d: "length (filter is_Set_Pos (drop (length (log s))
      (log (completions (replicate 8 True) (snd (OLED_UpdateAsync True s)))))) = 8"
    unfolding c by (simp add: session_state_def count_page_begin is_Set_Pos_def del: upt_Suc)
  have e: "length (filter is_Display_Assign (drop (length (log s))
      (log (completions (replicate 8 True) (snd (OLED_UpdateAsync True s)))))) = 2"
    unfolding c by (simp add: session_state_def count_page_begin is_Display_Assign_def del: upt_Suc)
  from a b c d e show ?thesis by blast
qed

theorem OLED_UpdateAsync_full_frame_witness:
  "fst (OLED_UpdateAsync True power_on) = 1 \<and>
   OLED_DMA_TransferBusy (completions (replicate 7 True) (snd (OLED_UpdateAsync True power_on))) = 1 \<and>
   OLED_DMA_TransferBusy (completions (replicate 8 True) (snd (OLED_UpdateAsync True power_on))) = 0 \<and>
   log (completions (replicate 8 True) (snd (OLED_UpdateAsync True power_on))) =
     Display_Assign PTR_GRAM1 # concat (map (page_begin PTR_GRAM1) [0..<8]) @ [Display_Assign PTR_GRAM1]"
proof -
  have idle: "OLED_DMA_TransferBusy power_on = 0"
    by (simp add: power_on_def)
  note t = OLED_UpdateAsync_full_frame [OF idle]
  have act: "ptr_of (active_buffer power_on) = PTR_GRAM1" and lg: "log power_on = []"
    by (simp_all add: power_on_def ptr_of_def)
  from t have allk: "\<forall>k<8. completions (replicate k True) (snd (OLED_UpdateAsync True power_on)) =
      session_state power_on 1 0 (of_nat k) (concat (map (page_begin (ptr_of (active_buffer power_on))) [0..<Suc k]))"
    by blast
  have "completions (replicate 7 True) (snd (OLED_UpdateAsync True power_on)) =
      session_state power_on 1 0 (of_nat 7) (concat (map (page_begin (ptr_of (active_buffer power_on))) [0..<Suc 7]))"
    by (rule allk [rule_format]) simp
  then have seven: "OLED_DMA_TransferBusy (completions (replicate 7 True) (snd (OLED_UpdateAsync True power_on))) = 1"
    by (simp add: session_state_def)
  from t have eight: "completions (replicate 8 True) (snd (OLED_UpdateAsync True power_on)) =
      session_state power_on 0 1 8 (concat (map (page_begin (ptr_of (active_buffer power_on))) [0..<8]) @
                             [Display_Assign (ptr_of (active_buffer power_on))])"
    by blast
  from t have "fst (OLED_UpdateAsync True power_on) = 1"
    by blast
  with seven show ?thesis
    unfolding eight by (simp add: session_state_def act lg del: upt_Suc)
qed

text \<open>
  C1 as stated (exactly one update of the display-buffer pointer, only after the 8th
  completion signal) fails: in the state after one complete frame the display pointer is
  \<open>OLED_GRAM1\<close> and \<open>OLED_GRAM2\<close> is active; the next asynchronous update makes the
  display pointer \<open>OLED_GRAM2\<close> at once, with the session busy at page 0 and no
  completion signal received, and the session assigns the pointer twice.
\<close>

theorem OLED_UpdateAsync_display_pointer_counterexample:
  "OLED_DMA_TransferBusy first_frame = 0 \<and>
   OLED_DISPLAY_GRAM first_frame = PTR_GRAM1 \<and>
   active_buffer first_frame = BUFFER_B \<and>
   OLED_DISPLAY_GRAM (snd (OLED_UpdateAsync True first_frame)) = PTR_GRAM2 \<and>
   OLED_DMA_TransferBusy (snd (OLED_UpdateAsync True first_frame)) = 1 \<and>
   current_dma_page (snd (OLED_UpdateAsync True first_frame)) = 0 \<and>
   length (filter is_Display_Assign (drop (length (log first_frame))
      (log (completions (replicate 8 True) (snd (OLED_UpdateAsync True first_frame)))))) = 2"
proof -
  have idle0: "OLED_DMA_TransferBusy power_on = 0"
    by (simp add: power_on_def)
  have ff: "first_frame =
      session_state power_on 0 1 8 (concat (map (page_begin PTR_GRAM1) [0..<8]) @ [Display_Assign PTR_GRAM1])"
    unfolding first_frame_def full_frame_done [OF idle0] by (simp add: power_on_def ptr_of_def)
  have idle1: "OLED_DMA_TransferBusy first_frame = 0"
    and d1: "OLED_DISPLAY_GRAM first_frame = PTR_GRAM1"
    and a1: "active_buffer first_frame = BUFFER_B"
    unfolding ff by (simp_all add: session_state_def power_on_def ptr_of_def)
  note st = full_frame_start [OF idle1]
  have d2: "OLED_DISPLAY_GRAM (snd (OLED_UpdateAsync True first_frame)) = PTR_GRAM2"
    and b2: "OLED_DMA_TransferBusy (snd (OLED_UpdateAsync True first_frame)) = 1"
    and p2: "current_dma_page (snd (OLED_UpdateAsync True first_frame)) = 0"
    unfolding st by (simp_all add: session_state_def a1 ptr_of_def)
  have n2: "length (filter is_Display_Assign (drop (length (log first_frame))
      (log (completions (replicate 8 True) (snd (OLED_UpdateAsync True first_frame)))))) = 2"
    unfolding full_frame_done [OF idle1]
    by (simp add: session_state_def count_page_begin is_Display_Assign_def del: upt_Suc)
  from idle1 d1 a1 d2 b2 p2 n2 show ?thesis by blast
qed

text \<open>
  C2.  If a session is active (busy flag set), the asynchronous update returns 0 and
  leaves the whole state as it was: the page counter, the buffer snapshot and the
  active and display buffer assignment in particular.
\<close>

theorem OLED_UpdateAsync_busy_rejected:
  "OLED_DMA_TransferBusy s \<noteq> 0 \<Longrightarrow> OLED_UpdateAsync bus_ok s = (0, s)"
  by (simp add: OLED_UpdateAsync_def)

theorem OLED_UpdateAsync_busy_rejected_witness:
  "OLED_UpdateAsync True (snd (OLED_UpdateAsync True power_on)) = (0, snd (OLED_UpdateAsync True power_on))
   \<and> current_dma_page (snd (OLED_UpdateAsync True (snd (OLED_UpdateAsync True power_on)))) = 0
   \<and> OLED_DMA_TransferBusy (snd (OLED_UpdateAsync True power_on)) = 1"
proof -
  have busy: "OLED_DMA_TransferBusy (snd (OLED_UpdateAsync True power_on)) = 1"
    by (simp add: OLED_UpdateAsync_def OLED_StartDMATransferPage_def power_on_def emit_def
        enum_value_def Let_def)
  then have "OLED_DMA_TransferBusy (snd (OLED_UpdateAsync True power_on)) \<noteq> 0"
    by simp
  from OLED_UpdateAsync_busy_rejected [OF this, of True]
  have rej: "OLED_UpdateAsync True (snd (OLED_UpdateAsync True power_on)) = (0, snd (OLED_UpdateAsync True power_on))" .
  have "current_dma_page (snd (OLED_UpdateAsync True power_on)) = 0"
    by (simp add: OLED_UpdateAsync_def OLED_StartDMATransferPage_def power_on_def emit_def
        enum_value_def Let_def)
  with rej busy show ?thesis by simp
qed

section \<open>Area update\<close>

text \<open>
  C4.  What the code does with the claim's cases.  For a rectangle inside the screen, on
  an idle driver whose page counter stands at 7 or more (it is 8 after a complete
  frame) and does not wrap, with the bus answering every wait: for each page of
  \<open>[y1 / 8, y2 / 8]\<close> in order, one \<open>OLED_Set_Pos(x1, page)\<close> and one block send of
  \<open>x2 - x1 + 1\<close> bytes from \<open>&OLED_DISPLAY_GRAM[page][x1]\<close>, which are the bytes of
  columns \<open>x1..x2\<close> of that page of the display buffer, and no other transport call.
  A rectangle that lies wholly off the screen to the right, below, to the left or above,
  or whose corners are out of order, is a no-op: no transport call, no change of state.
  A rectangle that is only partly on the screen is neither rejected nor clamped:
  \<open>(0,0)-(200,0)\<close> sends 201 bytes starting at page 0, and \<open>(0,56)-(0,64)\<close>
  addresses page 8 and sends a byte from beyond the end of the buffer.  And on the
  power-on state, where the page counter is 0, the completion interrupt of the area
  update's own block send makes the handler chain the full pages 1..7 of the frame after
  the 11 bytes of the rectangle \<open>(0,0)-(10,7)\<close>.
\<close>

theorem OLED_UpdateArea_cases:
  "(0 \<le> sint x1 \<and> sint x1 \<le> sint x2 \<and> sint x2 < 128 \<and>
    0 \<le> sint y1 \<and> sint y1 \<le> sint y2 \<and> sint y2 < 64 \<and> OLED_DMA_TransferBusy s = 0 \<and>
    7 \<le> unat (current_dma_page s) \<and>
    unat (current_dma_page s) + (Suc (nat (sint y2 div 8)) - nat (sint y1 div 8)) \<le> 255 \<and>
    OLED_DISPLAY_GRAM s = session_ptr s \<longrightarrow>
      OLED_UpdateArea spin (replicate (Suc (nat (sint y2 div 8)) - nat (sint y1 div 8)) (DMA_started [True] True))
          x1 y1 x2 y2 s =
        Some (s\<lparr>OLED_DMA_TransferComplete := 1,
                current_dma_page := current_dma_page s + of_nat (Suc (nat (sint y2 div 8)) - nat (sint y1 div 8)),
                log := log s @ concat (map (area_page_events s x1 (nat (sint x2 - sint x1 + 1)))
                                        [nat (sint y1 div 8)..<Suc (nat (sint y2 div 8))])\<rparr>) \<and>
      (\<forall>p<8. dma_bytes s (OLED_DISPLAY_GRAM s) (int p * 128 + sint x1) (nat (sint x2 - sint x1 + 1)) =
              map (\<lambda>c. Some (deref s (OLED_DISPLAY_GRAM s) p c)) [nat (sint x1)..<Suc (nat (sint x2))]))
   \<and> (sint x1 \<ge> 128 \<or> sint y1 \<ge> 64 \<or> sint x2 < 0 \<or> sint y2 < 0 \<or> sint x1 > sint x2 \<or> sint y1 > sint y2 \<longrightarrow>
        OLED_UpdateArea spin hw x1 y1 x2 y2 s = Some s)
   \<and> OLED_UpdateArea spin [DMA_started [True] True] 0 0 200 0 first_frame =
        Some (first_frame\<lparr>current_dma_page := 9,
                log := log first_frame @ [Set_Pos 0 0, DMA_Send PTR_GRAM1 0 201, Display_Assign PTR_GRAM1]\<rparr>)
   \<and> OLED_UpdateArea spin [DMA_started [True] True, DMA_started [True] True] 0 56 0 64 first_frame =
        Some (first_frame\<lparr>current_dma_page := 10,
                log := log first_frame @
                  [Set_Pos 0 7, DMA_Send PTR_GRAM1 896 1, Display_Assign PTR_GRAM1,
                   Set_Pos 0 8, DMA_Send PTR_GRAM1 1024 1, Display_Assign PTR_GRAM1]\<rparr>)
   \<and> dma_bytes first_frame PTR_GRAM1 1024 1 = [None]
   \<and> OLED_UpdateArea spin [DMA_started (replicate 8 True) True] 0 0 10 7 power_on =
        Some (power_on\<lparr>OLED_DMA_TransferComplete := 1, current_dma_page := 8,
                log := [Set_Pos 0 0, DMA_Send PTR_GRAM1 0 11] @
                       concat (map (page_begin PTR_GRAM1) [1..<8]) @ [Display_Assign PTR_GRAM1]\<rparr>)"
proof -
  have a: "0 \<le> sint x1 \<and> sint x1 \<le> sint x2 \<and> sint x2 < 128 \<and>
    0 \<le> sint y1 \<and> sint y1 \<le> sint y2 \<and> sint y2 < 64 \<and> OLED_DMA_TransferBusy s = 0 \<and>
    7 \<le> unat (current_dma_page s) \<and>
    unat (current_dma_page s) + (Suc (nat (sint y2 div 8)) - nat (sint y1 div 8)) \<le> 255 \<and>
    OLED_DISPLAY_GRAM s = session_ptr s \<longrightarrow>
      OLED_UpdateArea spin (replicate (Suc (nat (sint y2 div 8)) - nat (sint y1 div 8)) (DMA_started [True] True))
          x1 y1 x2 y2 s =
        Some (s\<lparr>OLED_DMA_TransferComplete := 1,
                current_dma_page := current_dma_page s + of_nat (Suc (nat (sint y2 div 8)) - nat (sint y1 div 8)),
                log := log s @ concat (map (area_page_events s x1 (nat (sint x2 - sint x1 + 1)))
                                        [nat (sint y1 div 8)..<Suc (nat (sint y2 div 8))])\<rparr>)"
    using OLED_UpdateArea_in_screen by blast
  have b: "0 \<le> sint x1 \<and> sint x1 \<le> sint x2 \<and> sint x2 < 128 \<longrightarrow>
      (\<forall>p<8. dma_bytes s (OLED_DISPLAY_GRAM s) (int p * 128 + sint x1) (nat (sint x2 - sint x1 + 1)) =
              map (\<lambda>c. Some (deref s (OLED_DISPLAY_GRAM s) p c)) [nat (sint x1)..<Suc (nat (sint x2))])"
    using dma_bytes_in_screen by blast
  have c: "sint x1 \<ge> 128 \<or> sint y1 \<ge> 64 \<or> sint x2 < 0 \<or> sint y2 < 0 \<or> sint x1 > sint x2 \<or> sint y1 > sint y2 \<longrightarrow>
        OLED_UpdateArea spin hw x1 y1 x2 y2 s = Some s"
    using OLED_UpdateArea_rejected by blast
  have d: "dma_bytes first_frame PTR_GRAM1 1024 1 = [None]"
    by (simp add: dma_bytes_def read_flat_def)
  from a b c d OLED_UpdateArea_beyond_right OLED_UpdateArea_below OLED_UpdateArea_chains_frame
  show ?thesis
    by blast
qed

theorem OLED_UpdateArea_cases_witness:
  "OLED_UpdateArea [] [DMA_started [True] True, DMA_started [True] True] 2 3 5 12 first_frame =
     Some (first_frame\<lparr>current_dma_page := 10,
             log := log first_frame @
               [Set_Pos 2 0, DMA_Send PTR_GRAM1 2 4, Display_Assign PTR_GRAM1,
                Set_Pos 2 1, DMA_Send PTR_GRAM1 130 4, Display_Assign PTR_GRAM1]\<rparr>)
   \<and> dma_bytes first_frame PTR_GRAM1 130 4 = map (\<lambda>c. Some (OLED_GRAM1 first_frame 1 c)) [2, 3, 4, 5]
   \<and> OLED_UpdateArea [] [DMA_started [True] True] 128 0 130 0 first_frame = Some first_frame"
proof -
  note t = OLED_UpdateArea_cases [where ?x1.0 = 2 and ?y1.0 = 3 and ?x2.0 = 5 and ?y2.0 = 12
      and s = first_frame and hw = "[DMA_started [True] True]" and spin = "[]"]
  note u = OLED_UpdateArea_cases [where ?x1.0 = 128 and ?y1.0 = 0 and ?x2.0 = 130 and ?y2.0 = 0
      and s = first_frame and hw = "[DMA_started [True] True]" and spin = "[]"]
  have st: "OLED_DMA_TransferBusy first_frame = 0" "current_dma_page first_frame = 8"
    "OLED_DISPLAY_GRAM first_frame = PTR_GRAM1" "session_ptr first_frame = PTR_GRAM1"
    "OLED_DMA_TransferComplete first_frame = 1"
    unfolding first_frame_eq
    by (simp_all add: session_state_def session_ptr_def power_on_def enum_value_def ptr_of_def)
  have pre: "0 \<le> sint (2 :: 16 word) \<and> sint (2 :: 16 word) \<le> sint (5 :: 16 word) \<and> sint (5 :: 16 word) < 128 \<and>
    0 \<le> sint (3 :: 16 word) \<and> sint (3 :: 16 word) \<le> sint (12 :: 16 word) \<and> sint (12 :: 16 word) < 64 \<and>
    OLED_DMA_TransferBusy first_frame = 0 \<and> 7 \<le> unat (current_dma_page first_frame) \<and>
    unat (current_dma_page first_frame) + (Suc (nat (sint (12 :: 16 word) div 8)) - nat (sint (3 :: 16 word) div 8)) \<le> 255 \<and>
    OLED_DISPLAY_GRAM first_frame = session_ptr first_frame"
    by (simp add: st)
  have upt: "[0..<Suc (Suc 0)] = [0, Suc 0]" "[2..<Suc 5] = [2, 3, 4, 5]"
    by (simp_all add: upt_conv_Cons)
  have keep: "first_frame\<lparr>OLED_DMA_TransferComplete := 1\<rparr> = first_frame"
    using st(5) by (cases first_frame) simp
  from t pre have one: "OLED_UpdateArea [] (replicate (Suc (nat (sint (12 :: 16 word) div 8)) - nat (sint (3 :: 16 word) div 8)) (DMA_started [True] True))
          2 3 5 12 first_frame =
        Some (first_frame\<lparr>OLED_DMA_TransferComplete := 1,
                current_dma_page := current_dma_page first_frame + of_nat (Suc (nat (sint (12 :: 16 word) div 8)) - nat (sint (3 :: 16 word) div 8)),
                log := log first_frame @ concat (map (area_page_events first_frame 2 (nat (sint (5 :: 16 word) - sint (2 :: 16 word) + 1)))
                                        [nat (sint (3 :: 16 word) div 8)..<Suc (nat (sint (12 :: 16 word) div 8))])\<rparr>)"
    by blast
  from t pre have two: "\<forall>p<8. dma_bytes first_frame (OLED_DISPLAY_GRAM first_frame) (int p * 128 + sint (2 :: 16 word)) (nat (sint (5 :: 16 word) - sint (2 :: 16 word) + 1)) =
              map (\<lambda>c. Some (deref first_frame (OLED_DISPLAY_GRAM first_frame) p c)) [nat (sint (2 :: 16 word))..<Suc (nat (sint (5 :: 16 word)))]"
    by blast
  have x: "OLED_UpdateArea [] [DMA_started [True] True, DMA_started [True] True] 2 3 5 12 first_frame =
     Some (first_frame\<lparr>current_dma_page := 10,
             log := log first_frame @
               [Set_Pos 2 0, DMA_Send PTR_GRAM1 2 4, Display_Assign PTR_GRAM1,
                Set_Pos 2 1, DMA_Send PTR_GRAM1 130 4, Display_Assign PTR_GRAM1]\<rparr>)"
    using one by (simp add: area_page_events_def area_page_def st upt keep del: upt_Suc)
  have y: "dma_bytes first_frame PTR_GRAM1 130 4 = map (\<lambda>c. Some (OLED_GRAM1 first_frame 1 c)) [2, 3, 4, 5]"
    using two [rule_format, of 1] by (simp add: deref_def upt st del: upt_Suc)
  have "sint (128 :: 16 word) \<ge> 128"
    by simp
  with u have z: "OLED_UpdateArea [] [DMA_started [True] True] 128 0 130 0 first_frame = Some first_frame"
    by blast
  from x y z show ?thesis by blast
qed

section \<open>Formatted text\<close>

text \<open>
  C8.  Rendering a pure-ASCII string (no more than 127 characters, at a start position on
  the screen, font height 8 or 16): compared with the string without its last character
  \<open>c\<close>, a newline moves the cursor Y down by exactly the font height and the cursor X
  back to the start column, a carriage return moves only the cursor X back to the start
  column, and neither is passed to the glyph renderer nor changes the buffer; any other
  character is passed to the glyph renderer at the cursor and then moves the cursor X
  right by the pitch, 6 for the 8-tall font and 8 for the 16-tall font.  The characters
  rendered are the characters of the string other than newline and carriage return, in
  order.
\<close>

theorem OLED_Printf_cursor:
  assumes on: "0 \<le> sint X" "sint X \<le> 127" "0 \<le> sint Y" "sint Y \<le> 63"
    and font: "FontSize = 8 \<or> FontSize = 16"
    and pure: "OLED_IsPureASCII (pre @ [c])"
    and nonul: "CHR 0x00 \<notin> set (pre @ [c])"
    and len: "length (pre @ [c]) \<le> 127"
  shows "let r = OLED_Printf fnt std X Y FontSize (Some pre) g;
             r' = OLED_Printf fnt std X Y FontSize (Some (pre @ [c])) g;
             pitch = (if FontSize = 8 then 6 else 8)
         in (c = CHR 0x0A \<longrightarrow>
               sint (currentY r') = sint (currentY r) + uint FontSize \<and> currentX r' = X \<and>
               glyphs r' = glyphs r \<and> frame r' = frame r) \<and>
            (c = CHR 0x0D \<longrightarrow>
               currentY r' = currentY r \<and> currentX r' = X \<and>
               glyphs r' = glyphs r \<and> frame r' = frame r) \<and>
            (c \<noteq> CHR 0x0A \<and> c \<noteq> CHR 0x0D \<longrightarrow>
               sint (currentX r') = sint (currentX r) + pitch \<and> currentY r' = currentY r \<and>
               glyphs r' = glyphs r @ [(currentX r, currentY r, c)] \<and>
               frame r' = OLED_DrawASCIIFast fnt (currentX r) (currentY r) c FontSize (frame r)) \<and>
            map (\<lambda>q. snd (snd q)) (glyphs r') =
              filter (\<lambda>ch. ch \<noteq> CHR 0x0A \<and> ch \<noteq> CHR 0x0D) (pre @ [c])"
proof -
  let ?cw = "if FontSize = 8 then 6 else 8 :: 8 word"
  let ?st = "\<lparr>currentX = X, currentY = Y, glyphs = [], frame = g\<rparr>"
  let ?r = "printf_ascii fnt X FontSize ?cw pre ?st"
  let ?r' = "printf_ascii fnt X FontSize ?cw (pre @ [c]) ?st"
  have pure_pre: "OLED_IsPureASCII pre"
    using pure by (simp add: pure_append)
  have nonul_pre: "CHR 0x00 \<notin> set pre" and len_pre: "length pre \<le> 127"
    using nonul len by simp_all
  have r: "OLED_Printf fnt std X Y FontSize (Some pre) g = ?r"
    by (rule printf_fast_path [OF on font pure_pre nonul_pre len_pre])
  have r': "OLED_Printf fnt std X Y FontSize (Some (pre @ [c])) g = ?r'"
    by (rule printf_fast_path [OF on font pure nonul len])
  have step: "?r' = printf_ascii fnt X FontSize ?cw [c] ?r"
    by (rule printf_ascii_append)
  have cw: "uint ?cw \<le> 8" and lh: "uint FontSize \<le> 16"
    using font by auto
  have cwv: "uint ?cw = (if FontSize = 8 then 6 else 8)"
    by simp
  have k: "0 + length pre \<le> 127"
    using len by simp
  have lp: "int (length pre) \<le> 126"
    using len by simp
  have "0 \<le> sint (currentX ?r) \<and> sint (currentX ?r) \<le> 127 + 8 * int (0 + length pre) \<and>
        0 \<le> sint (currentY ?r) \<and> sint (currentY ?r) \<le> 63 + 16 * int (0 + length pre)"
    using on by (intro printf_ascii_bounds [OF on(1,2) cw lh _ _ _ _ k]) simp_all
  then have bx: "0 \<le> sint (currentX ?r)" "sint (currentX ?r) \<le> 127 + 8 * int (length pre)"
    and bY: "0 \<le> sint (currentY ?r)" "sint (currentY ?r) \<le> 63 + 16 * int (length pre)"
    by simp_all
  have cw0: "0 \<le> uint ?cw" and lh0: "0 \<le> uint FontSize"
    by simp_all
  have sx: "sint (currentX ?r + ucast ?cw) = sint (currentX ?r) + uint ?cw"
    using bx cw cw0 lp by (intro sint_add_ucast8) linarith+
  have sy: "sint (currentY ?r + ucast FontSize) = sint (currentY ?r) + uint FontSize"
    using bY lh lh0 lp by (intro sint_add_ucast8) linarith+
  have nl: "c = CHR 0x0A \<longrightarrow>
               sint (currentY ?r') = sint (currentY ?r) + uint FontSize \<and> currentX ?r' = X \<and>
               glyphs ?r' = glyphs ?r \<and> frame ?r' = frame ?r"
    unfolding step using sy by simp
  have cr: "c = CHR 0x0D \<longrightarrow>
               currentY ?r' = currentY ?r \<and> currentX ?r' = X \<and>
               glyphs ?r' = glyphs ?r \<and> frame ?r' = frame ?r"
    unfolding step by simp
  have ch: "c \<noteq> CHR 0x0A \<and> c \<noteq> CHR 0x0D \<longrightarrow>
               sint (currentX ?r') = sint (currentX ?r) + (if FontSize = 8 then 6 else 8) \<and>
               currentY ?r' = currentY ?r \<and>
               glyphs ?r' = glyphs ?r @ [(currentX ?r, currentY ?r, c)] \<and>
               frame ?r' = OLED_DrawASCIIFast fnt (currentX ?r) (currentY ?r) c FontSize (frame ?r)"
    unfolding step using sx cwv by simp
  have all: "map (\<lambda>q. snd (snd q)) (glyphs ?r') =
              filter (\<lambda>ch. ch \<noteq> CHR 0x0A \<and> ch \<noteq> CHR 0x0D) (pre @ [c])"
    using printf_ascii_chars [of fnt X FontSize ?cw "pre @ [c]" ?st] by simp
  from nl cr ch all show ?thesis
    unfolding r r' Let_def by blast
qed

theorem OLED_Printf_cursor_witness:
  "sint (currentY (OLED_Printf \<lparr>OLED_F8x16 = (\<lambda>c i. 0), OLED_F6x8 = (\<lambda>c i. 0)\<rparr> (\<lambda>X l w s st. st)
           10 3 8 (Some (''Hi'' @ [CHR 0x0A])) (\<lambda>p c. 0))) =
   sint (currentY (OLED_Printf \<lparr>OLED_F8x16 = (\<lambda>c i. 0), OLED_F6x8 = (\<lambda>c i. 0)\<rparr> (\<lambda>X l w s st. st)
           10 3 8 (Some ''Hi'') (\<lambda>p c. 0))) + 8
   \<and> sint (currentX (OLED_Printf \<lparr>OLED_F8x16 = (\<lambda>c i. 0), OLED_F6x8 = (\<lambda>c i. 0)\<rparr> (\<lambda>X l w s st. st)
           10 3 16 (Some (''H'' @ [CHR ''i''])) (\<lambda>p c. 0))) =
   sint (currentX (OLED_Printf \<lparr>OLED_F8x16 = (\<lambda>c i. 0), OLED_F6x8 = (\<lambda>c i. 0)\<rparr> (\<lambda>X l w s st. st)
           10 3 16 (Some ''H'') (\<lambda>p c. 0))) + 8"
proof -
  have on: "0 \<le> sint (10 :: 16 word)" "sint (10 :: 16 word) \<le> 127"
    "0 \<le> sint (3 :: 16 word)" "sint (3 :: 16 word) \<le> 63"
    by simp_all
  have f8: "(8 :: 8 word) = 8 \<or> (8 :: 8 word) = 16" and f16: "(16 :: 8 word) = 8 \<or> (16 :: 8 word) = 16"
    by simp_all
  have p1: "OLED_IsPureASCII (''Hi'' @ [CHR 0x0A])" and p2: "OLED_IsPureASCII (''H'' @ [CHR ''i''])"
    by simp_all
  have n1: "CHR 0x00 \<notin> set (''Hi'' @ [CHR 0x0A])" and n2: "CHR 0x00 \<notin> set (''H'' @ [CHR ''i''])"
    by simp_all
  have l1: "length (''Hi'' @ [CHR 0x0A]) \<le> 127" and l2: "length (''H'' @ [CHR ''i'']) \<le> 127"
    by simp_all
  note a = OLED_Printf_cursor [OF on f8 p1 n1 l1,
      of "\<lparr>OLED_F8x16 = (\<lambda>c i. 0), OLED_F6x8 = (\<lambda>c i. 0)\<rparr>" "\<lambda>X l w s st. st" "\<lambda>p c. 0"]
  note b = OLED_Printf_cursor [OF on f16 p2 n2 l2,
      of "\<lparr>OLED_F8x16 = (\<lambda>c i. 0), OLED_F6x8 = (\<lambda>c i. 0)\<rparr>" "\<lambda>X l w s st. st" "\<lambda>p c. 0"]
  from a have "sint (currentY (OLED_Printf \<lparr>OLED_F8x16 = (\<lambda>c i. 0), OLED_F6x8 = (\<lambda>c i. 0)\<rparr> (\<lambda>X l w s st. st)
           10 3 8 (Some (''Hi'' @ [CHR 0x0A])) (\<lambda>p c. 0))) =
   sint (currentY (OLED_Printf \<lparr>OLED_F8x16 = (\<lambda>c i. 0), OLED_F6x8 = (\<lambda>c i. 0)\<rparr> (\<lambda>X l w s st. st)
           10 3 8 (Some ''Hi'') (\<lambda>p c. 0))) + 8"
    unfolding Let_def by simp
  moreover from b have "sint (currentX (OLED_Printf \<lparr>OLED_F8x16 = (\<lambda>c i. 0), OLED_F6x8 = (\<lambda>c i. 0)\<rparr> (\<lambda>X l w s st. st)
           10 3 16 (Some (''H'' @ [CHR ''i''])) (\<lambda>p c. 0))) =
   sint (currentX (OLED_Printf \<lparr>OLED_F8x16 = (\<lambda>c i. 0), OLED_F6x8 = (\<lambda>c i. 0)\<rparr> (\<lambda>X l w s st. st)
           10 3 16 (Some ''H'') (\<lambda>p c. 0))) + 8"
    unfolding Let_def by simp
  ultimately show ?thesis
    by blast
qed

end
